theory Spec2Isabelle
  imports Complex_Main "HOL-Library.Sublist"
begin

section \<open>JavaScript values used by the pipeline\<close>

text \<open>
  A JavaScript string is modelled as a \<^typ>\<open>string\<close>: one \<^typ>\<open>char\<close> per code unit,
  restricted to the 8-bit range. \<open>null\<close> and \<open>undefined\<close> are \<open>None\<close> of an option type.
  A call that leaves the process (HTTP request, chat completion) is modelled by its
  outcome: the request either throws or yields its response.
\<close>

datatype 'a http = NetworkError string | Response 'a

text \<open>\<open>s.includes(p)\<close>: \<open>p\<close> occurs in \<open>s\<close> as a contiguous run.\<close>

fun str_includes :: "string \<Rightarrow> string \<Rightarrow> bool" where
  "str_includes [] p = (p = [])"
| "str_includes (c # cs) p = (prefix p (c # cs) \<or> str_includes cs p)"

text \<open>
  \<open>s.toLowerCase()\<close> on 8-bit code units: the letters \<open>A\<close> to \<open>Z\<close> and the Latin-1 capitals
  \<open>0xC0\<close> to \<open>0xDE\<close> (the multiplication sign \<open>0xD7\<close> apart) move up by \<open>0x20\<close>; every
  other code unit is kept.
\<close>

definition lowerChar :: "char \<Rightarrow> char" where
  "lowerChar c =
     (let n = (of_char c :: nat)
      in if (65 \<le> n \<and> n \<le> 90) \<or> (192 \<le> n \<and> n \<le> 222 \<and> n \<noteq> 215)
         then char_of (n + 32)
         else c)"

definition toLowerCase :: "string \<Rightarrow> string" where
  "toLowerCase s = map lowerChar s"

text \<open>\<open>s.split(d)\<close> for a one-character separator: the pieces between the separators.\<close>

fun split_on :: "char \<Rightarrow> string \<Rightarrow> string list" where
  "split_on d [] = [[]]"
| "split_on d (c # cs) =
     (if c = d then [] # split_on d cs
      else (case split_on d cs of [] \<Rightarrow> [[c]] | p # ps \<Rightarrow> (c # p) # ps))"

text \<open>\<open>s.trim()\<close>: white space is removed at both ends.\<close>

definition isWhiteSpace :: "char \<Rightarrow> bool" where
  "isWhiteSpace c \<longleftrightarrow> c \<in> set [CHR '' '', CHR 0x09, CHR 0x0A, CHR 0x0B, CHR 0x0C, CHR 0x0D, CHR 0xA0]"

definition trim :: "string \<Rightarrow> string" where
  "trim s = rev (dropWhile isWhiteSpace (rev (dropWhile isWhiteSpace s)))"

text \<open>Truthiness of a value that is a string, \<open>null\<close> or \<open>undefined\<close>.\<close>

fun truthy :: "string option \<Rightarrow> bool" where
  "truthy None = False"
| "truthy (Some s) = (s \<noteq> [])"

section \<open>Competitor discovery (services/googleSearcher.js)\<close>

definition excludePatterns :: "string list" where
  "excludePatterns =
     [''youtube.com'', ''youtu.be'',
      ''twitter.com'', ''x.com'',
      ''facebook.com'', ''instagram.com'',
      ''linkedin.com/company'', ''linkedin.com/in/'',
      ''.pdf'', ''.doc'', ''.ppt'',
      ''wikipedia.org'',
      ''/login'', ''/signup'', ''/register'',
      ''/shop'', ''/product'', ''/cart'',
      ''amazon.com'', ''ebay.com'']"

definition includePatterns :: "string list" where
  "includePatterns =
     [''/blog'', ''/article'', ''/post'', ''/news'',
      ''/guide'', ''/how-to'', ''/tutorial'',
      ''/insights'', ''/resources'', ''/learn'']"

definition articleKeywords :: "string list" where
  "articleKeywords = [''how to'', ''guide'', ''tips'', ''ways'', ''best'', ''top'', ''complete'']"

text \<open>\<open>isBlogOrArticle(url, title = '')\<close>.\<close>

definition isBlogOrArticle :: "string \<Rightarrow> string \<Rightarrow> bool" where
  "isBlogOrArticle url title =
     (let lowerUrl = toLowerCase url;
          lowerTitle = toLowerCase title
      in if list_ex (\<lambda>pattern. str_includes lowerUrl pattern) excludePatterns then False
         else if list_ex (\<lambda>pattern. str_includes lowerUrl pattern) includePatterns then True
         else if list_ex (\<lambda>kw. str_includes lowerTitle kw) articleKeywords then True
         else \<not> suffix ''/'' lowerUrl \<or> length (split_on CHR ''/'' lowerUrl) > 4)"

text \<open>
  An entry of SerpAPI's \<open>organic_results\<close> (\<open>link\<close> and \<open>title\<close> are strings, \<open>snippet\<close> may
  be absent), an element of DuckDuckGo's result page as the callback of \<open>each\<close> reads it
  (the text of the title link, its \<open>href\<close> attribute, the text of the snippet), and a
  competitor candidate as both providers return it.
\<close>

record organic =
  r_link :: string
  r_title :: string
  r_snippet :: "string option"

record ddg_element =
  titleEl_text :: string
  titleEl_href :: "string option"
  snippetEl_text :: string

record candidate =
  c_title :: string
  c_url :: string
  c_snippet :: string

text \<open>
  What the search stage reads from outside: the configured key, the answer of each
  provider to a query, and the library function \<open>decodeURIComponent\<close>, which throws
  (\<open>None\<close>) on a malformed escape sequence.
\<close>

record search_env =
  SERP_API_KEY :: "string option"
  serp_get :: "string \<Rightarrow> nat \<Rightarrow> organic list option http"
  ddg_get :: "string \<Rightarrow> ddg_element list http"
  decodeURIComponent :: "string \<Rightarrow> string option"

text \<open>\<open>url.match(/uddg=([^&]+)/)\<close>: the first \<open>uddg=\<close> that a character other than \<open>&\<close> follows.\<close>

fun uddg_match :: "string \<Rightarrow> string option" where
  "uddg_match [] = None"
| "uddg_match (c # cs) =
     (let captured = takeWhile (\<lambda>x. x \<noteq> CHR ''&'') (drop 5 (c # cs))
      in if prefix ''uddg='' (c # cs) \<and> captured \<noteq> [] then Some captured
         else uddg_match cs)"

text \<open>
  The callback of \<open>$('.result').each\<close> on one element, after its test of
  \<open>results.length\<close>: the redirect address is resolved, and the element is pushed when it
  has an address and a title and passes both filters. \<open>None\<close> is an exception of the
  callback, \<open>Some None\<close> an element that is not pushed.
\<close>

definition resolve_url :: "search_env \<Rightarrow> string option \<Rightarrow> string option option" where
  "resolve_url env href =
     (case href of
        None \<Rightarrow> Some None
      | Some url \<Rightarrow>
          if url \<noteq> [] \<and> str_includes url ''uddg='' then
            (case uddg_match url of
               None \<Rightarrow> Some (Some url)
             | Some m \<Rightarrow> map_option Some (decodeURIComponent env m))
          else Some (Some url))"

definition ddg_callback :: "search_env \<Rightarrow> ddg_element \<Rightarrow> candidate option option" where
  "ddg_callback env element =
     (let title = trim (titleEl_text element);
          snippet = trim (snippetEl_text element)
      in case resolve_url env (titleEl_href element) of
           None \<Rightarrow> None
         | Some url \<Rightarrow>
             if truthy url \<and> title \<noteq> [] \<and> isBlogOrArticle (the url) title
                \<and> \<not> str_includes (toLowerCase (the url)) ''beyondchats.com''
             then Some (Some \<lparr>c_title = title, c_url = the url, c_snippet = snippet\<rparr>)
             else Some None)"

text \<open>
  The iteration of \<open>each\<close> with the array \<open>results\<close> passed along; \<open>return false\<close> (at
  \<open>count + 5\<close> results) ends it.
\<close>

fun ddg_each :: "search_env \<Rightarrow> nat \<Rightarrow> ddg_element list \<Rightarrow> candidate list \<Rightarrow> candidate list option" where
  "ddg_each env count [] results = Some results"
| "ddg_each env count (element # rest) results =
     (if length results \<ge> count + 5 then Some results
      else case ddg_callback env element of
             None \<Rightarrow> None
           | Some None \<Rightarrow> ddg_each env count rest results
           | Some (Some c) \<Rightarrow> ddg_each env count rest (results @ [c]))"

definition searchWithDuckDuckGo :: "search_env \<Rightarrow> string \<Rightarrow> nat \<Rightarrow> candidate list" where
  "searchWithDuckDuckGo env query count =
     (case ddg_get env (query @ '' blog article guide -site:beyondchats.com'') of
        NetworkError e \<Rightarrow> []
      | Response elements \<Rightarrow>
          (case ddg_each env count elements [] of
             None \<Rightarrow> []
           | Some results \<Rightarrow> take count results))"

definition searchWithSerpAPI :: "search_env \<Rightarrow> string \<Rightarrow> nat \<Rightarrow> candidate list" where
  "searchWithSerpAPI env query count =
     (case serp_get env (query @ '' blog article -site:beyondchats.com'') (count + 5) of
        NetworkError e \<Rightarrow> searchWithDuckDuckGo env query count
      | Response organic_results \<Rightarrow>
          (let results = (case organic_results of None \<Rightarrow> [] | Some rs \<Rightarrow> rs)
           in map (\<lambda>r. \<lparr>c_title = r_title r, c_url = r_link r,
                        c_snippet = (if truthy (r_snippet r) then the (r_snippet r) else [])\<rparr>)
                (take count
                  (filter (\<lambda>r. \<not> str_includes (toLowerCase (r_link r)) ''beyondchats.com'')
                    (filter (\<lambda>r. isBlogOrArticle (r_link r) (r_title r)) results)))))"

definition searchRelatedArticles :: "search_env \<Rightarrow> string \<Rightarrow> nat \<Rightarrow> candidate list" where
  "searchRelatedArticles env title count =
     (if truthy (SERP_API_KEY env) \<and> SERP_API_KEY env \<noteq> Some ''your_serpapi_key_here''
      then searchWithSerpAPI env title count
      else searchWithDuckDuckGo env title count)"

section \<open>Text extraction (services/contentScraper.js)\<close>

text \<open>
  What \<open>scrapeArticleContent(url)\<close> resolves to when it is not \<open>null\<close>. The page fetch and
  the readability extraction happen outside the program text modelled here, so the
  function is an input: \<open>None\<close> is \<open>null\<close>.
\<close>

record scraped =
  s_content :: string
  s_textContent :: string
  s_excerpt :: "string option"
  s_image_url :: "string option"

text \<open>A competitor document: the candidate, spread, with the extracted fields added.\<close>

record competitor = candidate +
  c_content :: string
  htmlContent :: string
  c_excerpt :: string
  image_url :: "string option"

definition scrapeMultipleArticles :: "(string \<Rightarrow> scraped option) \<Rightarrow> candidate list \<Rightarrow> competitor list" where
  "scrapeMultipleArticles scrapeArticleContent urls =
     List.map_filter
       (\<lambda>urlInfo.
          case scrapeArticleContent (c_url urlInfo) of
            None \<Rightarrow> None
          | Some content \<Rightarrow>
              Some \<lparr>c_title = c_title urlInfo, c_url = c_url urlInfo, c_snippet = c_snippet urlInfo,
                    c_content = s_textContent content,
                    htmlContent = s_content content,
                    c_excerpt = (if truthy (s_excerpt content) then the (s_excerpt content)
                                 else c_snippet urlInfo),
                    image_url = s_image_url content\<rparr>)
       urls"

section \<open>Gap analysis and enhancement (services/llmEnhancer.js)\<close>

text \<open>
  A source article as the storage service returns it. \<open>title\<close> and \<open>content\<close> are required
  by the service; the other fields may be \<open>null\<close>.
\<close>

record article =
  a_title :: string
  a_content :: string
  a_excerpt :: "string option"
  a_author :: "string option"
  a_published_at :: "string option"
  a_featured_image :: "string option"
  original_url :: "string option"

text \<open>
  A value produced by \<open>JSON.parse\<close>. A number is the rational it denotes. An object lists
  each of its keys once.
\<close>

datatype json =
  JNull
| JBool bool
| JNum rat
| JStr string
| JArr "json list"
| JObj "(string \<times> json) list"

fun js_truthy :: "json \<Rightarrow> bool" where
  "js_truthy JNull = False"
| "js_truthy (JBool b) = b"
| "js_truthy (JNum n) = (n \<noteq> 0)"
| "js_truthy (JStr s) = (s \<noteq> [])"
| "js_truthy (JArr xs) = True"
| "js_truthy (JObj kvs) = True"

text \<open>
  \<open>analysis.name\<close> for a parsed value other than \<open>null\<close>: the member of an object, and
  \<open>undefined\<close> (\<open>None\<close>) for a missing member and for every other kind of value.
\<close>

fun property :: "json \<Rightarrow> string \<Rightarrow> json option" where
  "property (JObj kvs) name = map_of kvs name"
| "property v name = None"

text \<open>\<open>x || d\<close>.\<close>

fun or_else :: "json option \<Rightarrow> json \<Rightarrow> json" where
  "or_else None d = d"
| "or_else (Some v) d = (if js_truthy v then v else d)"

text \<open>
  What the enhancer reads from outside: the configured key and \<open>JSON.parse\<close>, which
  returns the parsed value or throws a \<open>SyntaxError\<close> (\<open>Inl\<close> its message). The record also
  carries the \<open>hostname\<close> of \<open>new URL(url)\<close>, used by the citation assembler, where
  \<open>None\<close> is the \<open>TypeError\<close> of the constructor.
\<close>

record config =
  GROQ_API_KEY :: "string option"
  JSON_parse :: "string \<Rightarrow> string + json"
  URL_hostname :: "string \<Rightarrow> string option"

text \<open>
  \<open>initializeClient()\<close>: an exception is \<open>Inl\<close> of its message. The client itself is the
  completion outcome that each caller receives as an argument: the request either
  throws or yields \<open>choices[0]?.message?.content\<close>.
\<close>

definition initializeClient :: "string option \<Rightarrow> string + unit" where
  "initializeClient key =
     (if \<not> truthy key \<or> key = Some ''your_groq_api_key_here''
      then Inl ''GROQ_API_KEY is not set. Get a free key at https://console.groq.com/keys''
      else Inr ())"

text \<open>
  \<open>text.replace(/```json\n?/g, '')\<close> and \<open>text.replace(/```\n?/g, '')\<close>: every
  occurrence of the fence, with the line feed after it if there is one, is removed.
\<close>

function replace_fence :: "string \<Rightarrow> string \<Rightarrow> string" where
  "replace_fence fence [] = []"
| "replace_fence fence (c # cs) =
     (if fence \<noteq> [] \<and> prefix fence (c # cs) then
        (case drop (length fence) (c # cs) of
           [] \<Rightarrow> []
         | d # ds \<Rightarrow>
             if d = CHR 0x0A then replace_fence fence ds else replace_fence fence (d # ds))
      else c # replace_fence fence cs)"
  by pat_completeness auto
termination
proof (relation "measure (\<lambda>(fence, s). length s)")
  show "wf (measure (\<lambda>(fence, s). length s))" by simp
next
  fix fence :: string and c cs d ds
  assume a: "fence \<noteq> [] \<and> prefix fence (c # cs)" "drop (length fence) (c # cs) = d # ds"
  have len: "length (d # ds) = length (c # cs) - length fence"
    using a(2) by (metis length_drop)
  then have "length ds < length (c # cs)" by simp
  then show "((fence, ds), fence, c # cs) \<in> measure (\<lambda>(fence, s). length s)" by simp
  from a have "length fence > 0" by simp
  with len have "length (d # ds) < length (c # cs)" by simp
  then show "((fence, d # ds), fence, c # cs) \<in> measure (\<lambda>(fence, s). length s)" by simp
next
  fix fence :: string and c :: char and cs
  show "((fence, cs), fence, c # cs) \<in> measure (\<lambda>(fence, s). length s)" by simp
qed

text \<open>
  \<open>stripHtml(html)\<close>: every tag (from a \<open><\<close> to the next \<open>>\<close>) becomes a space, every run of
  white space becomes one space, and the result is trimmed.
\<close>

function strip_tags :: "string \<Rightarrow> string" where
  "strip_tags [] = []"
| "strip_tags (c # cs) =
     (if c = CHR ''<'' \<and> CHR ''>'' \<in> set cs
      then CHR '' '' # strip_tags (drop 1 (dropWhile (\<lambda>x. x \<noteq> CHR ''>'') cs))
      else c # strip_tags cs)"
  by pat_completeness auto
termination
  by (relation "measure length")
     (auto simp: le_imp_less_Suc le_trans[OF diff_le_self length_dropWhile_le])

fun collapse_ws :: "string \<Rightarrow> string" where
  "collapse_ws [] = []"
| "collapse_ws [c] = (if isWhiteSpace c then '' '' else [c])"
| "collapse_ws (c # d # cs) =
     (if isWhiteSpace c
      then (if isWhiteSpace d then collapse_ws (d # cs) else CHR '' '' # collapse_ws (d # cs))
      else c # collapse_ws (d # cs))"

definition stripHtml :: "string \<Rightarrow> string" where
  "stripHtml html = trim (collapse_ws (strip_tags html))"

text \<open>
  \<open>html.match(/<h1[^>]*>(.*?)<\/h1>/i)\<close>, its first group: from the first \<open><h1\<close> that is
  closed by a \<open>>\<close> and followed, before any line terminator, by \<open></h1>\<close>, the text between
  the two tags.
\<close>

fun h1_body :: "string \<Rightarrow> string option" where
  "h1_body [] = None"
| "h1_body (c # cs) =
     (if toLowerCase (take 5 (c # cs)) = ''</h1>'' then Some []
      else if c = CHR 0x0A \<or> c = CHR 0x0D then None
      else map_option (\<lambda>t. c # t) (h1_body cs))"

fun h1_match :: "string \<Rightarrow> string option" where
  "h1_match [] = None"
| "h1_match (c # cs) =
     (if toLowerCase (take 3 (c # cs)) = ''<h1'' then
        (case dropWhile (\<lambda>x. x \<noteq> CHR ''>'') (drop 3 (c # cs)) of
           [] \<Rightarrow> h1_match cs
         | gt # body \<Rightarrow>
             (case h1_body body of
                None \<Rightarrow> h1_match cs
              | Some t \<Rightarrow> Some t))
      else h1_match cs)"

definition extractTitle :: "string \<Rightarrow> string option" where
  "extractTitle html = map_option stripHtml (h1_match html)"

text \<open>
  \<open>enhanceArticle(originalArticle, competitorArticles)\<close>. The prompt is built from the
  article and the competitors and is read by the generative service only; the outcome
  of the request is the argument \<open>completion\<close>. An exception of the request is thrown
  again.
\<close>

record enhancement =
  e_content :: string
  e_title :: string

definition enhanceArticle :: "config \<Rightarrow> article \<Rightarrow> competitor list \<Rightarrow> string option http \<Rightarrow> string + enhancement" where
  "enhanceArticle cfg originalArticle competitorArticles completion =
     (case initializeClient (GROQ_API_KEY cfg) of
        Inl e \<Rightarrow> Inl e
      | Inr client \<Rightarrow>
          (case completion of
             NetworkError e \<Rightarrow> Inl e
           | Response content \<Rightarrow>
               (let enhancedContent = (if truthy content then the content else [])
                in Inr \<lparr>e_content = enhancedContent,
                        e_title = (if truthy (extractTitle enhancedContent)
                                   then the (extractTitle enhancedContent)
                                   else ''Enhanced: '' @ a_title originalArticle)\<rparr>)))"

text \<open>
  \<open>performGapAnalysis(originalArticle, competitorArticles)\<close>. The \<open>catch\<close> block covers the
  request, the clean-up of the answer, \<open>JSON.parse\<close> and the reads of the parsed value; the
  read of a member of \<open>null\<close> throws a \<open>TypeError\<close>.
\<close>

record gap_analysis =
  missing :: json
  improve :: json
  strengths :: json
  keywords_missing :: json
  overall_score :: json
  recommendations :: json
  error :: "string option"

definition gap_default :: "string \<Rightarrow> gap_analysis" where
  "gap_default message =
     \<lparr>missing = JArr [JStr ''Unable to analyze - please check API key''],
      improve = JArr [],
      strengths = JArr [],
      keywords_missing = JArr [],
      overall_score = JNum 0,
      recommendations = JArr [],
      error = Some message\<rparr>"

definition null_read_message :: string where
  "null_read_message = ''Cannot read properties of null (reading '' @ [CHR 0x27] @ ''missing'' @ [CHR 0x27] @ '')''"

text \<open>
  The text handed to \<open>JSON.parse\<close>: the answer, or \<open>{}\<close> when it is absent or empty, with
  the code fences removed and trimmed.
\<close>

definition analysisText :: "string option \<Rightarrow> string" where
  "analysisText content =
     trim (replace_fence ''```''
       (replace_fence ''```json'' (if truthy content then the content else ''{}'')))"

definition performGapAnalysis :: "config \<Rightarrow> article \<Rightarrow> competitor list \<Rightarrow> string option http \<Rightarrow> string + gap_analysis" where
  "performGapAnalysis cfg originalArticle competitorArticles completion =
     (case initializeClient (GROQ_API_KEY cfg) of
        Inl e \<Rightarrow> Inl e
      | Inr client \<Rightarrow>
          Inr (case completion of
                 NetworkError e \<Rightarrow> gap_default e
               | Response content \<Rightarrow>
                   (case JSON_parse cfg (analysisText content) of
                      Inl e \<Rightarrow> gap_default e
                    | Inr JNull \<Rightarrow> gap_default null_read_message
                    | Inr analysis \<Rightarrow>
                        \<lparr>missing = or_else (property analysis ''missing'') (JArr []),
                         improve = or_else (property analysis ''improve'') (JArr []),
                         strengths = or_else (property analysis ''strengths'') (JArr []),
                         keywords_missing = or_else (property analysis ''keywords_missing'') (JArr []),
                         overall_score = or_else (property analysis ''overall_score'') (JNum 5),
                         recommendations = or_else (property analysis ''recommendations'') (JArr []),
                         error = None\<rparr>)))"

section \<open>Citation assembler and batch orchestrator (processAll.js)\<close>

definition COMPETITOR_COUNT :: nat where
  "COMPETITOR_COUNT = 2"

text \<open>\<open>parts.join(sep)\<close>.\<close>

fun join :: "string \<Rightarrow> string list \<Rightarrow> string" where
  "join sep [] = []"
| "join sep [x] = x"
| "join sep (x # y # ys) = x @ sep @ join sep (y # ys)"

text \<open>
  The callback of \<open>competitors.map\<close> in \<open>generateCitations\<close>: one card, or \<open>None\<close> when
  \<open>new URL(c.url)\<close> throws.
\<close>

definition citationCard :: "config \<Rightarrow> competitor \<Rightarrow> string option" where
  \<open>citationCard cfg c =
     (case URL_hostname cfg (c_url c) of
        None \<Rightarrow> None
      | Some hostname \<Rightarrow>
          (let snippet =
                 (if c_snippet c \<noteq> [] then c_snippet c
                  else if c_excerpt c \<noteq> [] then c_excerpt c
                  else ''Read the full article to learn more.'');
               cleanSnippet =
                 (if length snippet > 120 then take 120 snippet @ ''...'' else snippet);
               imageHtml =
                 (if truthy (image_url c)
                  then ''<img src="'' @ the (image_url c) @ ''" alt="'' @ c_title c
                       @ ''" loading="lazy" onerror="this.style.display='none';''
                       @ ''this.parentElement.querySelector('.related-image-placeholder')''
                       @ ''.style.display='flex'">\<newline>''
                       @ ''                   <div class="related-image-placeholder" style="display:none">''
                       @ c_title c @ ''</div>''
                  else ''<div class="related-image-placeholder">'' @ c_title c @ ''</div>'')
           in Some (''\<newline>    <a href="'' @ c_url c
                    @ ''" target="_blank" rel="noopener" class="related-article-card">\<newline>''
                    @ ''        <div class="related-image">\<newline>''
                    @ ''            '' @ imageHtml @ ''\<newline>''
                    @ ''        </div>\<newline>''
                    @ ''        <div style="padding: 1rem;">\<newline>''
                    @ ''            <h3>'' @ c_title c @ ''</h3>\<newline>''
                    @ ''            <div class="related-meta">Source: '' @ hostname @ ''</div>\<newline>''
                    @ ''            <p class="related-excerpt">'' @ cleanSnippet @ ''</p>\<newline>''
                    @ ''        </div>\<newline>''
                    @ ''    </a>'')))\<close>

text \<open>
  \<open>generateCitations(competitors)\<close>: the cards are built in order, and the first
  \<open>new URL\<close> that throws ends the function with its \<open>TypeError\<close>.
\<close>

definition citations_section :: "string \<Rightarrow> string \<Rightarrow> string" where
  \<open>citations_section citationCards first_url =
     ''\<newline><section class="related-articles-section">\<newline>''
     @ ''  <h2>Reference Articles</h2>\<newline>''
     @ ''  <p class="section-subtitle">These articles were analyzed by our AI to enhance the content above</p>\<newline>''
     @ ''  <div class="related-articles-grid">\<newline>''
     @ ''    '' @ citationCards @ ''\<newline>''
     @ ''  </div>\<newline>''
     @ ''  <button class="see-more-btn" onclick="window.open('' @ [CHR 0x27] @ first_url
     @ [CHR 0x27] @ '', '_blank')">See more recommendations</button>\<newline>''
     @ ''</section>''\<close>

definition generateCitations :: "config \<Rightarrow> competitor list \<Rightarrow> string + string" where
  "generateCitations cfg competitors =
     (case competitors of
        [] \<Rightarrow> Inr []
      | c0 # others \<Rightarrow>
          (case those (map (citationCard cfg) competitors) of
             None \<Rightarrow> Inl ''Invalid URL''
           | Some citationCards \<Rightarrow>
               Inr (citations_section (join ''\<newline>'' citationCards) (c_url c0))))"

text \<open>The body of the request that publishes an enhanced article.\<close>

record competitor_ref =
  source_url :: string
  ref_title :: string
  content_summary :: string

record payload =
  p_title :: string
  p_content :: string
  p_excerpt :: "string option"
  p_author :: "string option"
  p_published_at :: "string option"
  p_featured_image :: "string option"
  p_original_url :: "string option"
  p_status :: string
  p_references :: "string list"
  p_gap_analysis :: gap_analysis
  p_competitor_articles :: "competitor_ref list"

text \<open>
  What one call of \<open>processArticle\<close> receives from outside: the answers of the search
  providers, the extraction of each page, the outcomes of the two completion requests,
  and the outcome of the publishing request (the \<open>id\<close> read from its answer, if any).
\<close>

record item_env =
  search :: search_env
  scrapeArticleContent :: "string \<Rightarrow> scraped option"
  gap_completion :: "string option http"
  enhance_completion :: "string option http"
  publishArticle :: "payload \<Rightarrow> nat option http"

record item_result =
  success :: bool
  reason :: "string option"
  articleId :: "nat option"
  score :: "json option"

definition no_success :: "string \<Rightarrow> item_result" where
  "no_success message = \<lparr>success = False, reason = Some message, articleId = None, score = None\<rparr>"

text \<open>
  \<open>processArticle(article, index, total)\<close>: every exception inside the \<open>try\<close> block ends
  in the \<open>catch\<close> block, which returns the message as the reason.
\<close>

definition processArticle :: "config \<Rightarrow> item_env \<Rightarrow> article \<Rightarrow> item_result" where
  "processArticle cfg env article =
     (let searchResults = searchRelatedArticles (search env) (a_title article) COMPETITOR_COUNT
      in if length searchResults = 0 then no_success ''No competitors found''
         else
           let competitorArticles = scrapeMultipleArticles (scrapeArticleContent env) searchResults
           in if length competitorArticles = 0 then no_success ''Scraping failed''
              else
                case performGapAnalysis cfg article competitorArticles (gap_completion env) of
                  Inl e \<Rightarrow> no_success e
                | Inr gapAnalysis \<Rightarrow>
                    (case enhanceArticle cfg article competitorArticles (enhance_completion env) of
                       Inl e \<Rightarrow> no_success e
                     | Inr enhanced \<Rightarrow>
                         (let references = map c_url competitorArticles
                          in case generateCitations cfg competitorArticles of
                               Inl e \<Rightarrow> no_success e
                             | Inr citationHtml \<Rightarrow>
                                 (let finalContent = e_content enhanced @ citationHtml
                                  in case publishArticle env
                                       \<lparr>p_title = e_title enhanced,
                                        p_content = finalContent,
                                        p_excerpt = a_excerpt article,
                                        p_author = a_author article,
                                        p_published_at = a_published_at article,
                                        p_featured_image = a_featured_image article,
                                        p_original_url = original_url article,
                                        p_status = ''updated'',
                                        p_references = references,
                                        p_gap_analysis = gapAnalysis,
                                        p_competitor_articles =
                                          map (\<lambda>c. \<lparr>source_url = c_url c,
                                                       ref_title = c_title c,
                                                       content_summary =
                                                         (if c_excerpt c \<noteq> [] then c_excerpt c
                                                          else take 300 (c_content c))\<rparr>)
                                            competitorArticles\<rparr> of
                                       NetworkError e \<Rightarrow> no_success e
                                     | Response new_id \<Rightarrow>
                                         \<lparr>success = True, reason = None, articleId = new_id,
                                          score = Some (overall_score gapAnalysis)\<rparr>))))"

text \<open>
  The counters of \<open>main\<close>. An entry of \<open>errors\<close> is a title with a reason.
\<close>

record results =
  results_success :: nat
  results_failed :: nat
  results_skipped :: nat
  results_errors :: "(string \<times> string option) list"

text \<open>
  The set \<open>alreadyEnhancedUrls\<close>, as the list of its members: the truthy \<open>original_url\<close> of
  every article of the answer, and nothing when the request throws.
\<close>

definition alreadyEnhancedUrls :: "article list http \<Rightarrow> string list" where
  "alreadyEnhancedUrls enhancedResponse =
     (case enhancedResponse of
        NetworkError e \<Rightarrow> []
      | Response enhancedArticles \<Rightarrow>
          remdups (map (\<lambda>a. the (original_url a))
                    (filter (\<lambda>a. truthy (original_url a)) enhancedArticles)))"

text \<open>\<open>set.has(v)\<close> for a set of strings and a value that may be \<open>null\<close>.\<close>

fun has :: "string list \<Rightarrow> string option \<Rightarrow> bool" where
  "has urls None = False"
| "has urls (Some u) = (u \<in> set urls)"

definition articlesToProcess :: "article list \<Rightarrow> article list http \<Rightarrow> article list" where
  "articlesToProcess articles enhancedResponse =
     filter (\<lambda>a. \<not> has (alreadyEnhancedUrls enhancedResponse) (original_url a)) articles"

text \<open>
  The \<open>for\<close> loop of \<open>main\<close> from index \<open>i\<close> on: \<open>pending\<close> is what is left of
  \<open>articlesToProcess\<close>, \<open>env i\<close> is what the \<open>i\<close>-th call of \<open>processArticle\<close> receives. The
  title of a failure is read from \<open>articles[i]\<close>; the read of \<open>title\<close> from \<open>undefined\<close>
  throws. The pause between two items is not modelled.
\<close>

fun process_each :: "config \<Rightarrow> (nat \<Rightarrow> item_env) \<Rightarrow> article list \<Rightarrow> article list \<Rightarrow> nat \<Rightarrow> results \<Rightarrow> string + results" where
  "process_each cfg env articles [] i results = Inr results"
| "process_each cfg env articles (a # pending) i results =
     (let result = processArticle cfg (env i) a
      in case (if success result
               then Inr (results\<lparr>results_success := results_success results + 1\<rparr>)
               else if i < length articles
               then Inr (results\<lparr>results_failed := results_failed results + 1,
                                  results_errors := results_errors results
                                    @ [(a_title (articles ! i), reason result)]\<rparr>)
               else Inl ''Cannot read properties of undefined'') of
           Inl e \<Rightarrow> Inl e
         | Inr results' \<Rightarrow>
             if results_success results' \<ge> 10 then Inr results'
             else process_each cfg env articles pending (i + 1) results')"

text \<open>
  \<open>main()\<close>: \<open>articlesResponse\<close> is the outcome of \<open>fetchAllOriginalArticles\<close>, whose
  exception ends the run, and \<open>enhancedResponse\<close> the outcome of the request for the
  articles of status \<open>updated\<close>.
\<close>

definition main :: "config \<Rightarrow> (nat \<Rightarrow> item_env) \<Rightarrow> article list http \<Rightarrow> article list http \<Rightarrow> string + results" where
  "main cfg env articlesResponse enhancedResponse =
     (case articlesResponse of
        NetworkError e \<Rightarrow> Inl e
      | Response articles \<Rightarrow>
          (let pending = articlesToProcess articles enhancedResponse
           in process_each cfg env articles pending 0
                \<lparr>results_success = 0,
                 results_failed = 0,
                 results_skipped = length articles - length pending,
                 results_errors = []\<rparr>))"

text \<open>
  The items on which the loop calls \<open>processArticle\<close>, in order: the loop leaves after
  the item whose success is the tenth.
\<close>

fun attempted :: "config \<Rightarrow> (nat \<Rightarrow> item_env) \<Rightarrow> article list \<Rightarrow> nat \<Rightarrow> nat \<Rightarrow> (article \<times> item_result) list" where
  "attempted cfg env [] i successes = []"
| "attempted cfg env (a # pending) i successes =
     (let result = processArticle cfg (env i) a;
          successes' = (if success result then successes + 1 else successes)
      in (a, result)
         # (if successes' \<ge> 10 then [] else attempted cfg env pending (i + 1) successes'))"

text \<open>
  The body of the publishing request of \<open>processArticle\<close>: the object that the call hands
  to \<open>publishArticle\<close>, when it gets that far. The stages before it are those of
  \<open>processArticle\<close>.
\<close>

definition request_body :: "config \<Rightarrow> item_env \<Rightarrow> article \<Rightarrow> payload option" where
  "request_body cfg env article =
     (let searchResults = searchRelatedArticles (search env) (a_title article) COMPETITOR_COUNT
      in if length searchResults = 0 then None
         else
           let competitorArticles = scrapeMultipleArticles (scrapeArticleContent env) searchResults
           in if length competitorArticles = 0 then None
              else
                case performGapAnalysis cfg article competitorArticles (gap_completion env) of
                  Inl e \<Rightarrow> None
                | Inr gapAnalysis \<Rightarrow>
                    (case enhanceArticle cfg article competitorArticles (enhance_completion env) of
                       Inl e \<Rightarrow> None
                     | Inr enhanced \<Rightarrow>
                         (let references = map c_url competitorArticles
                          in case generateCitations cfg competitorArticles of
                               Inl e \<Rightarrow> None
                             | Inr citationHtml \<Rightarrow>
                                 (let finalContent = e_content enhanced @ citationHtml
                                  in Some
                                       \<lparr>p_title = e_title enhanced,
                                        p_content = finalContent,
                                        p_excerpt = a_excerpt article,
                                        p_author = a_author article,
                                        p_published_at = a_published_at article,
                                        p_featured_image = a_featured_image article,
                                        p_original_url = original_url article,
                                        p_status = ''updated'',
                                        p_references = references,
                                        p_gap_analysis = gapAnalysis,
                                        p_competitor_articles =
                                          map (\<lambda>c. \<lparr>source_url = c_url c,
                                                       ref_title = c_title c,
                                                       content_summary =
                                                         (if c_excerpt c \<noteq> [] then c_excerpt c
                                                          else take 300 (c_content c))\<rparr>)
                                            competitorArticles\<rparr>))))"

text \<open>
  The bodies of the publishing requests of the loop that the storage service answered,
  in the order of the loop.
\<close>

fun published :: "config \<Rightarrow> (nat \<Rightarrow> item_env) \<Rightarrow> article list \<Rightarrow> nat \<Rightarrow> nat \<Rightarrow> payload list" where
  "published cfg env [] i successes = []"
| "published cfg env (a # pending) i successes =
     (let result = processArticle cfg (env i) a;
          successes' = (if success result then successes + 1 else successes)
      in (if success result
          then (case request_body cfg (env i) a of None \<Rightarrow> [] | Some body \<Rightarrow> [body])
          else [])
         @ (if successes' \<ge> 10 then [] else published cfg env pending (i + 1) successes'))"

text \<open>
  The storage service (\<open>ArticleController\<close> of the Laravel API, in the README, and
  \<open>app/Models/Article.php\<close>). \<open>store\<close> validates the body of the request and creates
  the article from it with \<open>Article::create\<close>, which copies the fillable fields; a body
  that fails the validation is answered with an error, which \<open>publishArticle\<close> throws.
  Of the created article, the fields of the record \<open>article\<close> are kept here.
\<close>

definition store :: "payload \<Rightarrow> article" where
  "store validated =
     \<lparr>a_title = p_title validated,
      a_content = p_content validated,
      a_excerpt = p_excerpt validated,
      a_author = p_author validated,
      a_published_at = p_published_at validated,
      a_featured_image = p_featured_image validated,
      original_url = p_original_url validated\<rparr>"

text \<open>
  \<open>index\<close> with \<open>status=updated\<close>, after the service has created an article for each
  body of \<open>created\<close>, in that order, \<open>before\<close> being what it returned until then: every
  article of the status \<open>updated\<close>, the newest first. The service does not read
  \<open>per_page\<close>.
\<close>

definition index_updated :: "article list \<Rightarrow> payload list \<Rightarrow> article list" where
  "index_updated before created =
     rev (map store (filter (\<lambda>body. p_status body = ''updated'') created)) @ before"

section \<open>Addition markers\<close>

text \<open>
  The enhancer asks the generative service to wrap what it adds in \<open><mark>\<close> tags. The
  content-preservation property of the specification is stated with two functions that
  stand outside the program: a generator stub, which answers with the original body cut
  into chunks and an added paragraph, wrapped in the markers, between two chunks; and the
  removal of every marked segment, from a \<open><mark>\<close> to the next \<open></mark>\<close>, as
  \<open>text.replace(/<mark>[\s\S]*?<\/mark>/g, '')\<close> does it.
\<close>

definition mark_open :: string where
  "mark_open = ''<mark>''"

definition mark_close :: string where
  "mark_close = ''</mark>''"

fun original_body :: "string \<Rightarrow> (string \<times> string) list \<Rightarrow> string" where
  "original_body chunk [] = chunk"
| "original_body chunk ((added, next_chunk) # rest) = chunk @ original_body next_chunk rest"

fun generator_stub :: "string \<Rightarrow> (string \<times> string) list \<Rightarrow> string" where
  "generator_stub chunk [] = chunk"
| "generator_stub chunk ((added, next_chunk) # rest) =
     chunk @ mark_open @ added @ mark_close @ generator_stub next_chunk rest"

text \<open>The text after the first \<open></mark>\<close>, if there is one.\<close>

fun after_close :: "string \<Rightarrow> string option" where
  "after_close [] = None"
| "after_close (c # cs) =
     (if prefix mark_close (c # cs) then Some (drop (length mark_close) (c # cs))
      else after_close cs)"

lemma after_close_shorter: "after_close s = Some rest \<Longrightarrow> length rest \<le> length s"
  by (induction s) (auto split: if_splits)

function strip_additions :: "string \<Rightarrow> string" where
  "strip_additions [] = []"
| "strip_additions (c # cs) =
     (if prefix mark_open (c # cs) then
        (case after_close (drop (length mark_open) (c # cs)) of
           None \<Rightarrow> c # strip_additions cs
         | Some rest \<Rightarrow> strip_additions rest)
      else c # strip_additions cs)"
  by pat_completeness auto
termination
proof (relation "measure length")
  show "wf (measure length)" by simp
next
  fix c :: char and cs
  show "(cs, c # cs) \<in> measure length" by simp
next
  fix c :: char and cs rest
  assume "after_close (drop (length mark_open) (c # cs)) = Some rest"
  then have "length rest \<le> length (drop (length mark_open) (c # cs))"
    by (rule after_close_shorter)
  then show "(rest, c # cs) \<in> measure length" by (simp add: mark_open_def)
next
  fix c :: char and cs
  show "(cs, c # cs) \<in> measure length" by simp
qed

section \<open>Example inputs\<close>

text \<open>
  The scenario of the specification: no SerpAPI key, and DuckDuckGo answers with a
  Facebook page and a blog post. Only the blog post is returned.
\<close>

definition example_search_env :: search_env where
  "example_search_env =
     \<lparr>SERP_API_KEY = None,
      serp_get = (\<lambda>q num. NetworkError ''no key''),
      ddg_get = (\<lambda>q. Response
        [\<lparr>titleEl_text = ''Acme on Facebook'',
          titleEl_href = Some ''https://www.facebook.com/acme'',
          snippetEl_text = ''Acme page''\<rparr>,
         \<lparr>titleEl_text = ''Chatbot Benefits'',
          titleEl_href = Some ''https://acme.io/blog/chatbot-benefits'',
          snippetEl_text = ''Why chatbots help''\<rparr>]),
      decodeURIComponent = Some\<rparr>"

text \<open>
  A configuration with a key. \<open>JSON.parse\<close> and \<open>new URL\<close> are given on the inputs the
  examples use: a few JSON texts, and the addresses of the competitor pages.
\<close>

definition example_parse :: "string \<Rightarrow> string + json" where
  \<open>example_parse s =
     (if s = ''{}'' then Inr (JObj [])
      else if s = ''null'' then Inr JNull
      else if s = ''{"overall_score": 7, "missing": ["pricing", "case studies"]}''
      then Inr (JObj [(''overall_score'', JNum 7),
                      (''missing'', JArr [JStr ''pricing'', JStr ''case studies''])])
      else if s = ''{"overall_score": 42}'' then Inr (JObj [(''overall_score'', JNum 42)])
      else Inl ''Unexpected token'')\<close>

definition example_hostname :: "string \<Rightarrow> string option" where
  "example_hostname u =
     (if u = ''https://acme.io/blog/chatbot-benefits'' then Some ''acme.io''
      else if u = ''https://example.org/guide/bots'' then Some ''example.org''
      else None)"

definition example_config :: config where
  "example_config =
     \<lparr>GROQ_API_KEY = Some ''gsk_example'',
      JSON_parse = example_parse,
      URL_hostname = example_hostname\<rparr>"

definition placeholder_config :: config where
  "placeholder_config = example_config\<lparr>GROQ_API_KEY := Some ''your_groq_api_key_here''\<rparr>"

definition example_scraped :: scraped where
  "example_scraped =
     \<lparr>s_content = ''<p>Chatbots answer at night.</p>'',
      s_textContent = ''Chatbots answer at night.'',
      s_excerpt = None,
      s_image_url = None\<rparr>"

text \<open>
  An item for which every stage answers, and an item for which both providers find
  nothing.
\<close>

definition example_item :: item_env where
  \<open>example_item =
     \<lparr>search = example_search_env,
      scrapeArticleContent = (\<lambda>url. Some example_scraped),
      gap_completion =
        Response (Some ''```json\<newline>{"overall_score": 7, "missing": ["pricing", "case studies"]}\<newline>```''),
      enhance_completion = Response (Some ''<p>Old.</p><mark><p>New.</p></mark><p>End.</p>''),
      publishArticle = (\<lambda>p. Response (Some 101))\<rparr>\<close>

definition empty_search_env :: search_env where
  "empty_search_env =
     \<lparr>SERP_API_KEY = None,
      serp_get = (\<lambda>q num. NetworkError ''no key''),
      ddg_get = (\<lambda>q. Response []),
      decodeURIComponent = Some\<rparr>"

definition barren_item :: item_env where
  "barren_item = example_item\<lparr>search := empty_search_env\<rparr>"

definition article_A :: article where
  "article_A =
     \<lparr>a_title = ''Chatbot Benefits'',
      a_content = ''<p>Old.</p><p>End.</p>'',
      a_excerpt = None,
      a_author = None,
      a_published_at = None,
      a_featured_image = None,
      original_url = Some ''https://beyondchats.com/blogs/chatbot-benefits''\<rparr>"

definition article_B :: article where
  "article_B =
     article_A\<lparr>a_title := ''Lead Generation'',
               original_url := Some ''https://beyondchats.com/blogs/lead-generation''\<rparr>"

text \<open>The derived article that a former run published for \<open>article_A\<close>.\<close>

definition enhanced_A :: article where
  "enhanced_A = article_A\<lparr>a_title := ''Enhanced: Chatbot Benefits''\<rparr>"

definition enhanced_B :: article where
  "enhanced_B = article_B\<lparr>a_title := ''Enhanced: Lead Generation''\<rparr>"

text \<open>An article stored without an original address, and the derived article of a former run.\<close>

definition article_C :: article where
  "article_C = article_A\<lparr>a_title := ''Release Notes'', original_url := None\<rparr>"

definition enhanced_C :: article where
  "enhanced_C = article_C\<lparr>a_title := ''Enhanced: Release Notes''\<rparr>"

text \<open>An article whose own body holds a marked passage.\<close>

definition article_M :: article where
  "article_M =
     article_A\<lparr>a_title := ''Key Terms'', a_content := ''<p>a</p><mark>key</mark><p>b</p>''\<rparr>"


text \<open>A competitor document of the examples, and one whose address is not a URL.\<close>

definition example_competitor :: competitor where
  "example_competitor =
     \<lparr>c_title = ''Chatbot Benefits'',
      c_url = ''https://acme.io/blog/chatbot-benefits'',
      c_snippet = ''Why chatbots help'',
      c_content = ''Chatbots answer at night.'',
      htmlContent = ''<p>Chatbots answer at night.</p>'',
      c_excerpt = ''Why chatbots help'',
      image_url = None\<rparr>"

definition broken_competitor :: competitor where
  "broken_competitor = example_competitor\<lparr>c_url := ''acme.io/blog''\<rparr>"

text \<open>The citation block of \<open>example_competitor\<close> alone, as the template prints it.\<close>

definition example_citations :: string where
  \<open>example_citations =
        ''\<newline>''
        @ ''<section class="related-articles-section">\<newline>''
        @ ''  <h2>Reference Articles</h2>\<newline>''
        @ ''  <p class="section-subtitle">These articles were analyzed by our AI to enhance the content above</p>\<newline>''
        @ ''  <div class="related-articles-grid">\<newline>''
        @ ''    \<newline>''
        @ ''    <a href="https://acme.io/blog/chatbot-benefits" target="_blank" rel="noopener" class="related-article-card">\<newline>''
        @ ''        <div class="related-image">\<newline>''
        @ ''            <div class="related-image-placeholder">Chatbot Benefits</div>\<newline>''
        @ ''        </div>\<newline>''
        @ ''        <div style="padding: 1rem;">\<newline>''
        @ ''            <h3>Chatbot Benefits</h3>\<newline>''
        @ ''            <div class="related-meta">Source: acme.io</div>\<newline>''
        @ ''            <p class="related-excerpt">Why chatbots help</p>\<newline>''
        @ ''        </div>\<newline>''
        @ ''    </a>\<newline>''
        @ ''  </div>\<newline>''
        @ ''  <button class="see-more-btn" onclick="window.open('https://acme.io/blog/chatbot-benefits', '_blank')">See more recommendations</button>\<newline>''
        @ ''</section>''\<close>

section \<open>Properties of discovery\<close>

lemma includes_prefix: "prefix p s \<Longrightarrow> str_includes s p"
  by (cases s) auto

lemma includes_append: "str_includes (pre @ p @ post) p"
  by (induction pre) (auto simp: includes_prefix)

lemma includes_iff: "str_includes s p \<longleftrightarrow> (\<exists>pre post. s = pre @ p @ post)"
proof
  show "str_includes s p \<Longrightarrow> \<exists>pre post. s = pre @ p @ post"
  proof (induction s)
    case Nil
    then show ?case by simp
  next
    case (Cons c cs)
    from Cons.prems have "prefix p (c # cs) \<or> str_includes cs p" by simp
    then show ?case
    proof
      assume "prefix p (c # cs)"
      then obtain post where "c # cs = p @ post" by (auto simp: prefix_def)
      then have "c # cs = [] @ p @ post" by simp
      then show ?thesis by blast
    next
      assume "str_includes cs p"
      then obtain pre post where "cs = pre @ p @ post" using Cons.IH by blast
      then have "c # cs = (c # pre) @ p @ post" by simp
      then show ?thesis by blast
    qed
  qed
next
  show "\<exists>pre post. s = pre @ p @ post \<Longrightarrow> str_includes s p"
    using includes_append by blast
qed

















section \<open>Properties of the batch orchestrator\<close>

lemma attempted_length: "length (attempted cfg env pending i s) \<le> length pending"
  by (induction pending arbitrary: i s) (auto simp: Let_def)

lemma attempted_nth:
  "k < length (attempted cfg env pending i s) \<Longrightarrow>
     attempted cfg env pending i s ! k = (pending ! k, processArticle cfg (env (i + k)) (pending ! k))"
proof (induction pending arbitrary: i s k)
  case Nil
  then show ?case by simp
next
  case (Cons a pending)
  show ?case
  proof (cases k)
    case 0
    then show ?thesis by (simp add: Let_def)
  next
    case (Suc j)
    with Cons.prems Cons.IH[of j "i + 1"] show ?thesis
      by (auto simp: Let_def split: if_splits)
  qed
qed

lemma attempted_items:
  "map fst (attempted cfg env pending i s) = take (length (attempted cfg env pending i s)) pending"
  by (induction pending arbitrary: i s) (auto simp: Let_def)

lemma attempted_all:
  "s + length (filter (\<lambda>(a, result). success result) (attempted cfg env pending i s)) < 10 \<Longrightarrow>
     length (attempted cfg env pending i s) = length pending"
proof (induction pending arbitrary: i s)
  case Nil
  then show ?case by simp
next
  case (Cons a pending)
  show ?case
  proof (cases "success (processArticle cfg (env i) a)")
    case True
    with Cons.prems have small: "\<not> s + 1 \<ge> 10" by (simp add: Let_def)
    with True Cons.prems Cons.IH[of "s + 1" "i + 1"] show ?thesis
      by (simp add: Let_def)
  next
    case False
    with Cons.prems have small: "\<not> s \<ge> 10" by (simp add: Let_def)
    with False Cons.prems Cons.IH[of s "i + 1"] show ?thesis
      by (simp add: Let_def)
  qed
qed

lemma process_each_trace:
  assumes "i + length pending \<le> length articles"
  shows "\<exists>r. process_each cfg env articles pending i res = Inr r
           \<and> results_success r = results_success res
               + length (filter (\<lambda>(a, result). success result)
                   (attempted cfg env pending i (results_success res)))
           \<and> results_failed r = results_failed res
               + length (filter (\<lambda>(a, result). \<not> success result)
                   (attempted cfg env pending i (results_success res)))
           \<and> results_skipped r = results_skipped res
           \<and> map snd (results_errors r) = map snd (results_errors res)
               @ map (\<lambda>(a, result). reason result)
                   (filter (\<lambda>(a, result). \<not> success result)
                     (attempted cfg env pending i (results_success res)))"
  using assms
proof (induction pending arbitrary: i res)
  case Nil
  then show ?case by simp
next
  case (Cons a pending)
  let ?result = "processArticle cfg (env i) a"
  from Cons.prems have i: "i < length articles" and rest: "(i + 1) + length pending \<le> length articles"
    by simp_all
  show ?case
  proof (cases "success ?result")
    case True
    let ?res' = "res\<lparr>results_success := results_success res + 1\<rparr>"
    show ?thesis
    proof (cases "results_success res + 1 \<ge> 10")
      case True
      with \<open>success ?result\<close> show ?thesis by (simp add: Let_def)
    next
      case False
      with \<open>success ?result\<close> Cons.IH[OF rest, of ?res'] show ?thesis
        by (simp add: Let_def)
    qed
  next
    case False
    let ?res' = "res\<lparr>results_failed := results_failed res + 1,
                     results_errors := results_errors res @ [(a_title (articles ! i), reason ?result)]\<rparr>"
    show ?thesis
    proof (cases "results_success res \<ge> 10")
      case True
      with \<open>\<not> success ?result\<close> i show ?thesis by (simp add: Let_def)
    next
      case False
      with \<open>\<not> success ?result\<close> i Cons.IH[OF rest, of ?res'] show ?thesis
        by (simp add: Let_def)
    qed
  qed
qed

lemma main_trace:
  "\<exists>r. main cfg env (Response articles) enh = Inr r
     \<and> results_success r
         = length (filter (\<lambda>(a, result). success result)
             (attempted cfg env (articlesToProcess articles enh) 0 0))
     \<and> results_failed r
         = length (filter (\<lambda>(a, result). \<not> success result)
             (attempted cfg env (articlesToProcess articles enh) 0 0))
     \<and> results_skipped r = length articles - length (articlesToProcess articles enh)
     \<and> map snd (results_errors r)
         = map (\<lambda>(a, result). reason result)
             (filter (\<lambda>(a, result). \<not> success result)
               (attempted cfg env (articlesToProcess articles enh) 0 0))"
proof -
  let ?pending = "articlesToProcess articles enh"
  let ?res = "\<lparr>results_success = 0, results_failed = 0,
               results_skipped = length articles - length ?pending, results_errors = []\<rparr>"
  have "0 + length ?pending \<le> length articles"
    by (simp add: articlesToProcess_def)
  from process_each_trace[OF this, of cfg env ?res] show ?thesis
    by (simp add: main_def Let_def)
qed

lemma has_empty: "\<not> has [] u"
  by (cases u) simp_all

lemma filter_partition_length:
  "length (filter (\<lambda>(a, result). success result) xs)
     + length (filter (\<lambda>(a, result). \<not> success result) xs) = length xs"
  by (induction xs) auto

text \<open>
  Claim C3 (run accounting). Every run whose first request succeeded completes with a
  summary. The items considered are those excluded as already enhanced, counted by
  \<open>skipped\<close>, and those on which \<open>processArticle\<close> was called, the first items of the
  pending list, each counted once, by \<open>success\<close> or by \<open>failed\<close>: the three counters sum
  to the number of items considered, also when the loop was left at the tenth success.
  When there were fewer than ten successes, every pending item was attempted and the sum
  is the number of source articles. When the loop was left with pending items not
  attempted, these are in no counter, and the sum is less than the number of source
  articles.
\<close>

theorem run_accounting:
  "let pending = articlesToProcess articles enh;
       considered = attempted cfg env pending 0 0
   in \<exists>r. main cfg env (Response articles) enh = Inr r
        \<and> map fst considered = take (length considered) pending
        \<and> results_skipped r = length articles - length pending
        \<and> results_success r = length (filter (\<lambda>(a, result). success result) considered)
        \<and> results_failed r = length (filter (\<lambda>(a, result). \<not> success result) considered)
        \<and> results_success r + results_failed r + results_skipped r
            = (length articles - length pending) + length considered
        \<and> (results_success r < 10 \<longrightarrow>
              results_success r + results_failed r + results_skipped r = length articles)
        \<and> (length considered < length pending \<longrightarrow>
              10 \<le> results_success r
              \<and> results_success r + results_failed r + results_skipped r < length articles)"
proof -
  let ?pending = "articlesToProcess articles enh"
  let ?considered = "attempted cfg env ?pending 0 0"
  from main_trace[of cfg env articles enh] obtain r where
    r: "main cfg env (Response articles) enh = Inr r"
    and s: "results_success r = length (filter (\<lambda>(a, result). success result) ?considered)"
    and f: "results_failed r = length (filter (\<lambda>(a, result). \<not> success result) ?considered)"
    and k: "results_skipped r = length articles - length ?pending"
    by blast
  have sum: "results_success r + results_failed r = length ?considered"
    using s f filter_partition_length[of ?considered] by simp
  have le: "length ?pending \<le> length articles"
    by (simp add: articlesToProcess_def)
  have all: "results_success r < 10 \<Longrightarrow> length ?considered = length ?pending"
    using attempted_all[of 0 cfg env ?pending 0] s by simp
  have items: "map fst ?considered = take (length ?considered) ?pending"
    by (rule attempted_items)
  have stopped: "10 \<le> results_success r" if "length ?considered < length ?pending"
    using that all by (cases "results_success r < 10") simp_all
  from r s f k sum le all items stopped show ?thesis
    unfolding Let_def by (intro exI[of _ r]) auto
qed

theorem run_accounting_witness:
  "main example_config (\<lambda>i. example_item) (Response [article_A, article_B]) (Response [enhanced_A])
     = Inr \<lparr>results_success = 1, results_failed = 0, results_skipped = 1, results_errors = []\<rparr>
   \<and> (1::nat) < 10
   \<and> (1::nat) + 0 + 1 = length [article_A, article_B]
   \<and> length (attempted example_config (\<lambda>i. example_item)
         (articlesToProcess (replicate 11 article_C) (Response [])) 0 0)
       < length (articlesToProcess (replicate 11 article_C) (Response []))
   \<and> (\<exists>r. main example_config (\<lambda>i. example_item) (Response (replicate 11 article_C)) (Response [])
             = Inr r
         \<and> 10 \<le> results_success r
         \<and> results_success r + results_failed r + results_skipped r < 11)"
proof -
  let ?env = "\<lambda>i::nat. example_item"
  let ?R = "\<lparr>results_success = 1, results_failed = 0, results_skipped = 1, results_errors = []\<rparr>"
  have run: "main example_config ?env (Response [article_A, article_B]) (Response [enhanced_A])
      = Inr ?R"
    by code_simp
  from run_accounting[of "[article_A, article_B]" "Response [enhanced_A]" example_config ?env]
  obtain r where r: "main example_config ?env (Response [article_A, article_B])
      (Response [enhanced_A]) = Inr r"
    and sum: "results_success r < 10 \<longrightarrow>
      results_success r + results_failed r + results_skipped r = length [article_A, article_B]"
    unfolding Let_def by blast
  from r run have "r = ?R" by simp
  with sum run have first: "main example_config ?env (Response [article_A, article_B])
        (Response [enhanced_A]) = Inr ?R
      \<and> (1::nat) < 10 \<and> (1::nat) + 0 + 1 = length [article_A, article_B]"
    by simp
  let ?articles = "replicate 11 article_C"
  have ok: "success (processArticle example_config example_item article_C)" by code_simp
  have pend: "articlesToProcess ?articles (Response []) = ?articles"
    by (simp add: articlesToProcess_def alreadyEnhancedUrls_def has_empty)
  have att: "length (attempted example_config ?env ?articles 0 0) = 10"
    by (simp add: eval_nat_numeral Let_def ok)
  have short: "length (attempted example_config ?env (articlesToProcess ?articles (Response [])) 0 0)
     < length (articlesToProcess ?articles (Response []))"
    unfolding pend att by simp
  from run_accounting[of ?articles "Response []" example_config ?env]
  obtain r' where r': "main example_config ?env (Response ?articles) (Response []) = Inr r'"
    and cap: "length (attempted example_config ?env (articlesToProcess ?articles (Response [])) 0 0)
        < length (articlesToProcess ?articles (Response [])) \<longrightarrow>
      10 \<le> results_success r'
      \<and> results_success r' + results_failed r' + results_skipped r' < length ?articles"
    unfolding Let_def by blast
  from cap short have "10 \<le> results_success r'
      \<and> results_success r' + results_failed r' + results_skipped r' < length ?articles"
    by (rule mp)
  with r' have second: "\<exists>r. main example_config ?env (Response ?articles) (Response []) = Inr r
         \<and> 10 \<le> results_success r
         \<and> results_success r + results_failed r + results_skipped r < 11"
    by auto
  from first short second show ?thesis by (intro conjI) simp_all
qed

lemma processArticle_no_candidates:
  "searchRelatedArticles (search ienv) (a_title a) COMPETITOR_COUNT = [] \<Longrightarrow>
     processArticle cfg ienv a = no_success ''No competitors found''"
  by (simp add: processArticle_def)

lemma processArticle_no_documents:
  "searchRelatedArticles (search ienv) (a_title a) COMPETITOR_COUNT \<noteq> [] \<Longrightarrow>
   scrapeMultipleArticles (scrapeArticleContent ienv)
     (searchRelatedArticles (search ienv) (a_title a) COMPETITOR_COUNT) = [] \<Longrightarrow>
     processArticle cfg ienv a = no_success ''Scraping failed''"
  by (simp add: processArticle_def Let_def)

lemma failure_reason_listed:
  assumes "k < length xs" and "\<not> success (snd (xs ! k))"
  shows "reason (snd (xs ! k))
    \<in> set (map (\<lambda>(a, result). reason result) (filter (\<lambda>(a, result). \<not> success result) xs))"
proof -
  from assms have "xs ! k \<in> set (filter (\<lambda>(a, result). \<not> success result) xs)"
    by (auto simp: case_prod_beta)
  then show ?thesis by (force simp: case_prod_beta)
qed

lemma failure_counted:
  assumes "k < length xs" and "\<not> success (snd (xs ! k))"
  shows "length (filter (\<lambda>(a, result). \<not> success result) xs) \<ge> 1"
proof -
  from assms have "xs ! k \<in> set (filter (\<lambda>(a, result). \<not> success result) xs)"
    by (auto simp: case_prod_beta)
  then have "0 < length (filter (\<lambda>(a, result). \<not> success result) xs)"
    by (rule length_pos_if_in_set)
  then show ?thesis by linarith
qed

text \<open>
  Claim C4 (skip versus fail), as the code has it. \<open>processArticle\<close> returns a result
  without success, with the reason \<open>No competitors found\<close> or \<open>Scraping failed\<close>, for an item
  with no candidate or no extracted document. \<open>main\<close> counts every result without success
  in \<open>failed\<close> and lists its reason in \<open>errors\<close>; \<open>skipped\<close> counts the articles excluded as
  already enhanced, and nothing else.
\<close>

theorem no_viable_input_is_counted_failed:
  assumes k: "k < length (attempted cfg env (articlesToProcess articles enh) 0 0)"
    and a: "a = articlesToProcess articles enh ! k"
    and candidates: "candidates = searchRelatedArticles (search (env k)) (a_title a) COMPETITOR_COUNT"
    and none: "candidates = [] \<or> scrapeMultipleArticles (scrapeArticleContent (env k)) candidates = []"
  shows "\<exists>r message. main cfg env (Response articles) enh = Inr r
           \<and> (message = ''No competitors found'' \<or> message = ''Scraping failed'')
           \<and> attempted cfg env (articlesToProcess articles enh) 0 0 ! k = (a, no_success message)
           \<and> results_failed r
               = length (filter (\<lambda>(a, result). \<not> success result)
                   (attempted cfg env (articlesToProcess articles enh) 0 0))
           \<and> results_failed r \<ge> 1
           \<and> Some message \<in> snd ` set (results_errors r)
           \<and> results_skipped r = length articles - length (articlesToProcess articles enh)"
proof -
  let ?T = "attempted cfg env (articlesToProcess articles enh) 0 0"
  from none candidates obtain message where
    m: "message = ''No competitors found'' \<or> message = ''Scraping failed''"
    and p: "processArticle cfg (env k) a = no_success message"
    using processArticle_no_candidates[of "env k" a cfg]
      processArticle_no_documents[of "env k" a cfg] by (cases "candidates = []") auto
  from attempted_nth[OF k] a p have nth: "?T ! k = (a, no_success message)" by simp
  then have fail: "\<not> success (snd (?T ! k))" and rsn: "reason (snd (?T ! k)) = Some message"
    by (simp_all add: no_success_def)
  from main_trace[of cfg env articles enh] obtain r where
    r: "main cfg env (Response articles) enh = Inr r"
    and f: "results_failed r = length (filter (\<lambda>(a, result). \<not> success result) ?T)"
    and sk: "results_skipped r = length articles - length (articlesToProcess articles enh)"
    and e: "map snd (results_errors r)
         = map (\<lambda>(a, result). reason result) (filter (\<lambda>(a, result). \<not> success result) ?T)"
    by blast
  from failure_counted[OF k fail] f have ge: "results_failed r \<ge> 1" by simp
  from failure_reason_listed[OF k fail] rsn e have "Some message \<in> set (map snd (results_errors r))"
    by simp
  then have listed: "Some message \<in> snd ` set (results_errors r)" by simp
  from r m nth f ge listed sk show ?thesis by blast
qed

theorem no_viable_input_is_counted_failed_witness:
  "(0::nat) < length (attempted example_config (\<lambda>i. barren_item)
       (articlesToProcess [article_A, article_B] (Response [enhanced_A])) 0 0)
   \<and> article_B = articlesToProcess [article_A, article_B] (Response [enhanced_A]) ! 0
   \<and> searchRelatedArticles (search barren_item) (a_title article_B) COMPETITOR_COUNT = []
   \<and> (\<exists>r message. main example_config (\<lambda>i. barren_item) (Response [article_A, article_B])
           (Response [enhanced_A]) = Inr r
         \<and> (message = ''No competitors found'' \<or> message = ''Scraping failed'')
         \<and> results_failed r \<ge> 1
         \<and> Some message \<in> snd ` set (results_errors r)
         \<and> results_skipped r = 1)"
proof -
  let ?env = "\<lambda>i::nat. barren_item"
  let ?articles = "[article_A, article_B]"
  let ?enh = "Response [enhanced_A]"
  have k: "(0::nat) < length (attempted example_config ?env (articlesToProcess ?articles ?enh) 0 0)"
    by code_simp
  have a: "article_B = articlesToProcess ?articles ?enh ! 0"
    by code_simp
  have c: "searchRelatedArticles (search barren_item) (a_title article_B) COMPETITOR_COUNT = []"
    by code_simp
  have len: "length ?articles - length (articlesToProcess ?articles ?enh) = 1"
    by code_simp
  have none: "searchRelatedArticles (search (?env 0)) (a_title article_B) COMPETITOR_COUNT = []
      \<or> scrapeMultipleArticles (scrapeArticleContent (?env 0))
           (searchRelatedArticles (search (?env 0)) (a_title article_B) COMPETITOR_COUNT) = []"
    using c by simp
  from no_viable_input_is_counted_failed[OF k a refl none] len k a c show ?thesis
    by (simp only:) blast
qed

text \<open>
  Claim C4 as stated fails: for an item with no candidate, the run ends with
  \<open>failed = 1\<close> and \<open>skipped = 0\<close>, and the item is listed among the failures.
\<close>

theorem skip_classification_counterexample:
  "searchRelatedArticles (search barren_item) (a_title article_B) COMPETITOR_COUNT = []
   \<and> main example_config (\<lambda>i. barren_item) (Response [article_B]) (Response [])
       = Inr \<lparr>results_success = 0, results_failed = 1, results_skipped = 0,
              results_errors = [(''Lead Generation'', Some ''No competitors found'')]\<rparr>"
  by code_simp

text \<open>
  Claim C9 (failure report fidelity) at a failing input. \<open>article_A\<close> is already enhanced
  and is filtered out, \<open>article_B\<close> is the only pending item and fails. The entry of
  \<open>errors\<close> pairs the reason of \<open>article_B\<close> with the title of \<open>article_A\<close>, which was never
  processed: the title is read from \<open>articles[i]\<close>, the index \<open>i\<close> counts in
  \<open>articlesToProcess\<close>.
\<close>

theorem failure_title_of_other_article:
  "articlesToProcess [article_A, article_B] (Response [enhanced_A]) = [article_B]
   \<and> processArticle example_config barren_item article_B = no_success ''No competitors found''
   \<and> a_title article_B = ''Lead Generation''
   \<and> main example_config (\<lambda>i. barren_item) (Response [article_A, article_B]) (Response [enhanced_A])
       = Inr \<lparr>results_success = 0, results_failed = 1, results_skipped = 1,
              results_errors = [(''Chatbot Benefits'', Some ''No competitors found'')]\<rparr>"
  by code_simp

lemma initializeClient_rejects:
  "\<not> truthy key \<or> key = Some ''your_groq_api_key_here'' \<Longrightarrow>
     initializeClient key
       = Inl ''GROQ_API_KEY is not set. Get a free key at https://console.groq.com/keys''"
  by (auto simp: initializeClient_def)

lemma processArticle_without_key:
  assumes "\<not> truthy (GROQ_API_KEY cfg) \<or> GROQ_API_KEY cfg = Some ''your_groq_api_key_here''"
  shows "\<not> success (processArticle cfg ienv a)"
proof -
  have "performGapAnalysis cfg a cs completion
      = Inl ''GROQ_API_KEY is not set. Get a free key at https://console.groq.com/keys''"
    for cs completion
    using initializeClient_rejects[OF assms] by (simp add: performGapAnalysis_def)
  then show ?thesis
    by (simp add: processArticle_def Let_def no_success_def)
qed

lemma processArticle_without_key_reason:
  assumes "\<not> truthy (GROQ_API_KEY cfg) \<or> GROQ_API_KEY cfg = Some ''your_groq_api_key_here''"
    and "searchRelatedArticles (search ienv) (a_title a) COMPETITOR_COUNT \<noteq> []"
    and "scrapeMultipleArticles (scrapeArticleContent ienv)
           (searchRelatedArticles (search ienv) (a_title a) COMPETITOR_COUNT) \<noteq> []"
  shows "processArticle cfg ienv a
    = no_success ''GROQ_API_KEY is not set. Get a free key at https://console.groq.com/keys''"
proof -
  have "performGapAnalysis cfg a cs completion
      = Inl ''GROQ_API_KEY is not set. Get a free key at https://console.groq.com/keys''"
    for cs completion
    using initializeClient_rejects[OF assms(1)] by (simp add: performGapAnalysis_def)
  with assms(2,3) show ?thesis
    by (simp add: processArticle_def Let_def)
qed

lemma attempted_none_succeeds:
  assumes "\<And>ienv a. \<not> success (processArticle cfg ienv a)"
  shows "filter (\<lambda>(a, result). success result) (attempted cfg env pending i s) = []"
proof -
  have "\<not> success (snd x)" if "x \<in> set (attempted cfg env pending i s)" for x
  proof -
    from that obtain k where k: "k < length (attempted cfg env pending i s)"
      and x: "x = attempted cfg env pending i s ! k"
      by (auto simp: in_set_conv_nth)
    from attempted_nth[OF k] x assms show ?thesis by simp
  qed
  then show ?thesis by (auto simp: filter_empty_conv)
qed

text \<open>
  Claim C5 as stated fails: with the placeholder key the run is not ended. Both items
  are processed, each is counted as failed with the message of \<open>initializeClient\<close>, and
  \<open>main\<close> returns its summary.
\<close>

theorem missing_credential_counterexample:
  "initializeClient (GROQ_API_KEY placeholder_config)
     = Inl ''GROQ_API_KEY is not set. Get a free key at https://console.groq.com/keys''
   \<and> main placeholder_config (\<lambda>i. example_item) (Response [article_A, article_B]) (Response [])
       = Inr \<lparr>results_success = 0, results_failed = 2, results_skipped = 0,
              results_errors =
                [(''Chatbot Benefits'',
                  Some ''GROQ_API_KEY is not set. Get a free key at https://console.groq.com/keys''),
                 (''Lead Generation'',
                  Some ''GROQ_API_KEY is not set. Get a free key at https://console.groq.com/keys'')]\<rparr>"
  by code_simp

text \<open>
  Claim C5, as the code has it. When the key is missing or is the placeholder,
  \<open>initializeClient\<close> throws at each use, inside the \<open>try\<close> block of \<open>processArticle\<close>: an
  item that has candidates and documents ends without success, with the message of the
  exception as its reason. The run goes on: \<open>main\<close> returns a summary in which no item
  succeeded and every pending item was attempted and counted as failed.
\<close>

theorem missing_credential_fails_each_item:
  assumes "\<not> truthy (GROQ_API_KEY cfg) \<or> GROQ_API_KEY cfg = Some ''your_groq_api_key_here''"
  shows "(searchRelatedArticles (search ienv) (a_title a) COMPETITOR_COUNT \<noteq> []
          \<and> scrapeMultipleArticles (scrapeArticleContent ienv)
               (searchRelatedArticles (search ienv) (a_title a) COMPETITOR_COUNT) \<noteq> [] \<longrightarrow>
            processArticle cfg ienv a
              = no_success ''GROQ_API_KEY is not set. Get a free key at https://console.groq.com/keys'')
         \<and> (\<exists>r. main cfg env (Response articles) enh = Inr r
               \<and> results_success r = 0
               \<and> results_failed r = length (articlesToProcess articles enh)
               \<and> length (attempted cfg env (articlesToProcess articles enh) 0 0)
                   = length (articlesToProcess articles enh))"
proof (intro conjI impI)
  assume "searchRelatedArticles (search ienv) (a_title a) COMPETITOR_COUNT \<noteq> []
          \<and> scrapeMultipleArticles (scrapeArticleContent ienv)
               (searchRelatedArticles (search ienv) (a_title a) COMPETITOR_COUNT) \<noteq> []"
  with assms show "processArticle cfg ienv a
      = no_success ''GROQ_API_KEY is not set. Get a free key at https://console.groq.com/keys''"
    by (simp add: processArticle_without_key_reason)
next
  let ?pending = "articlesToProcess articles enh"
  let ?T = "attempted cfg env ?pending 0 0"
  have none: "filter (\<lambda>(a, result). success result) ?T = []"
    using processArticle_without_key[OF assms] by (rule attempted_none_succeeds)
  then have all: "length ?T = length ?pending"
    using attempted_all[of 0 cfg env ?pending 0] by simp
  from main_trace[of cfg env articles enh] obtain r where
    r: "main cfg env (Response articles) enh = Inr r"
    and s: "results_success r = length (filter (\<lambda>(a, result). success result) ?T)"
    and f: "results_failed r = length (filter (\<lambda>(a, result). \<not> success result) ?T)"
    by blast
  from s none have s0: "results_success r = 0" by simp
  from f none filter_partition_length[of ?T] all have "results_failed r = length ?pending"
    by simp
  with r s0 all show "\<exists>r. main cfg env (Response articles) enh = Inr r
      \<and> results_success r = 0
      \<and> results_failed r = length ?pending
      \<and> length ?T = length ?pending"
    by blast
qed

theorem missing_credential_fails_each_item_witness:
  "GROQ_API_KEY placeholder_config = Some ''your_groq_api_key_here''
   \<and> searchRelatedArticles (search example_item) (a_title article_A) COMPETITOR_COUNT \<noteq> []
   \<and> scrapeMultipleArticles (scrapeArticleContent example_item)
        (searchRelatedArticles (search example_item) (a_title article_A) COMPETITOR_COUNT) \<noteq> []
   \<and> processArticle placeholder_config example_item article_A
       = no_success ''GROQ_API_KEY is not set. Get a free key at https://console.groq.com/keys''
   \<and> (\<exists>r. main placeholder_config (\<lambda>i. example_item) (Response [article_A, article_B]) (Response [])
             = Inr r
         \<and> results_success r = 0
         \<and> results_failed r = 2)"
proof -
  have placeholder: "GROQ_API_KEY placeholder_config = Some ''your_groq_api_key_here''"
    by code_simp
  then have key: "\<not> truthy (GROQ_API_KEY placeholder_config)
      \<or> GROQ_API_KEY placeholder_config = Some ''your_groq_api_key_here''"
    by (rule disjI2)
  have reach: "searchRelatedArticles (search example_item) (a_title article_A) COMPETITOR_COUNT \<noteq> []
      \<and> scrapeMultipleArticles (scrapeArticleContent example_item)
        (searchRelatedArticles (search example_item) (a_title article_A) COMPETITOR_COUNT) \<noteq> []"
    by code_simp
  have len: "length (articlesToProcess [article_A, article_B] (Response [])) = 2"
    by code_simp
  from missing_credential_fails_each_item[OF key, of example_item article_A "\<lambda>i. example_item"
      "[article_A, article_B]" "Response []"] placeholder reach len
  show ?thesis by (simp only:) blast
qed

lemma has_alreadyEnhancedUrls:
  assumes "d \<in> set enhancedArticles" and "truthy (original_url d)"
  shows "has (alreadyEnhancedUrls (Response enhancedArticles)) (original_url d)"
proof -
  from assms(2) obtain u where u: "original_url d = Some u" by (cases "original_url d") auto
  with assms have "u \<in> set (alreadyEnhancedUrls (Response enhancedArticles))"
    by (force simp: alreadyEnhancedUrls_def)
  with u show ?thesis by simp
qed

lemma processArticle_request_body:
  "request_body cfg ienv a = Some body \<Longrightarrow>
     processArticle cfg ienv a =
       (case publishArticle ienv body of
          NetworkError e \<Rightarrow> no_success e
        | Response new_id \<Rightarrow>
            \<lparr>success = True, reason = None, articleId = new_id,
             score = Some (overall_score (p_gap_analysis body))\<rparr>)"
  by (auto simp add: processArticle_def request_body_def Let_def split: sum.splits if_splits http.splits)

lemma request_body_None: "request_body cfg ienv a = None \<Longrightarrow> \<not> success (processArticle cfg ienv a)"
  by (simp add: processArticle_def request_body_def Let_def no_success_def split: sum.splits if_splits)

lemma request_body_Some:
  "request_body cfg ienv a = Some body \<Longrightarrow>
     p_original_url body = original_url a \<and> p_status body = ''updated''
     \<and> success (processArticle cfg ienv a) = (\<exists>new_id. publishArticle ienv body = Response new_id)"
  by (auto simp add: processArticle_def request_body_def Let_def no_success_def split: sum.splits if_splits http.splits)

lemma published_covers:
  assumes "length (filter (\<lambda>(a, result). success result) (attempted cfg env pending i s))
             = length pending"
    and "a \<in> set pending"
  shows "\<exists>body \<in> set (published cfg env pending i s).
           p_original_url body = original_url a \<and> p_status body = ''updated''"
  using assms
proof (induction pending arbitrary: i s)
  case Nil
  then show ?case by simp
next
  case (Cons b pending)
  define result where "result = processArticle cfg (env i) b"
  define s' where "s' = (if success result then s + 1 else s)"
  define rest where "rest = (if s' \<ge> 10 then [] else attempted cfg env pending (i + 1) s')"
  define later where "later = (if s' \<ge> 10 then [] else published cfg env pending (i + 1) s')"
  have att: "attempted cfg env (b # pending) i s = (b, result) # rest"
    by (simp add: Let_def result_def s'_def rest_def)
  have le1: "length (filter (\<lambda>(a, result). success result) rest) \<le> length rest"
    by (rule length_filter_le)
  have le2: "length rest \<le> length pending"
    using attempted_length[of cfg env pending "i + 1" s'] by (simp add: rest_def)
  from Cons.prems(1)
  have total: "length (filter (\<lambda>(a, result). success result) ((b, result) # rest))
      = Suc (length pending)"
    unfolding att by simp
  have ok: "success result"
  proof (rule ccontr)
    assume "\<not> success result"
    with total have "length (filter (\<lambda>(a, result). success result) rest) = Suc (length pending)"
      by simp
    with le1 le2 show False by simp
  qed
  with total have full: "length (filter (\<lambda>(a, result). success result) rest) = length pending"
    by simp
  from ok request_body_None[of cfg "env i" b] obtain body where
    body: "request_body cfg (env i) b = Some body"
    unfolding result_def by (cases "request_body cfg (env i) b") auto
  from request_body_Some[OF body]
  have fields: "p_original_url body = original_url b \<and> p_status body = ''updated''"
    by simp
  from ok have next_s: "s' = s + 1" by (simp add: s'_def)
  have pub: "published cfg env (b # pending) i s = body # later"
    using ok body by (simp add: Let_def result_def[symmetric] later_def next_s)
  show ?case
  proof (cases "a = b")
    case True
    with fields pub show ?thesis by simp
  next
    case False
    with Cons.prems(2) have mem: "a \<in> set pending" by simp
    then have nonempty: "length pending \<noteq> 0" by auto
    have going: "\<not> s' \<ge> 10"
    proof
      assume "s' \<ge> 10"
      then have "rest = []" by (simp add: rest_def)
      with full nonempty show False by simp
    qed
    then have rest: "rest = attempted cfg env pending (i + 1) s'"
      and later: "later = published cfg env pending (i + 1) s'"
      by (simp_all add: rest_def later_def)
    from full have "length (filter (\<lambda>(a, result). success result)
        (attempted cfg env pending (i + 1) s')) = length pending"
      unfolding rest .
    from Cons.IH[OF this mem] obtain body' where
      "body' \<in> set (published cfg env pending (i + 1) s')"
      "p_original_url body' = original_url a \<and> p_status body' = ''updated''"
      by blast
    with pub later show ?thesis by auto
  qed
qed

lemma excluded_has_source:
  assumes "has (alreadyEnhancedUrls enhancedResponse) (original_url a)"
  shows "\<exists>enhancedArticles. enhancedResponse = Response enhancedArticles
           \<and> truthy (original_url a)
           \<and> (\<exists>d \<in> set enhancedArticles. original_url d = original_url a)"
proof (cases enhancedResponse)
  case (NetworkError e)
  with assms show ?thesis by (simp add: alreadyEnhancedUrls_def has_empty)
next
  case (Response enhancedArticles)
  from assms obtain u where u: "original_url a = Some u"
    by (cases "original_url a") auto
  with assms Response have "u \<in> (\<lambda>a. the (original_url a))
      ` {a \<in> set enhancedArticles. truthy (original_url a)}"
    by (simp add: alreadyEnhancedUrls_def)
  then obtain d where d: "d \<in> set enhancedArticles" and t: "truthy (original_url d)"
    and v: "the (original_url d) = u"
    by auto
  from t obtain w where w: "original_url d = Some w" by (cases "original_url d") auto
  with v have "w = u" by simp
  with w u have same: "original_url d = original_url a" by simp
  with t have "truthy (original_url a)" by simp
  with d same Response show ?thesis by (intro exI[of _ enhancedArticles] conjI bexI[of _ d])
qed

lemma not_truthy_kept:
  assumes "\<not> truthy (original_url a)"
  shows "\<not> has (alreadyEnhancedUrls enhancedResponse) (original_url a)"
  using excluded_has_source[of enhancedResponse a] assms by blast

lemma second_run_pending:
  assumes seen: "enhancedResponse = Response before \<or> enhancedResponse = NetworkError e"
    and run: "main cfg env (Response articles) enhancedResponse = Inr summary"
    and full: "results_success summary + results_skipped summary = length articles"
  shows "articlesToProcess articles
           (Response (index_updated before
              (published cfg env (articlesToProcess articles enhancedResponse) 0 0)))
         = filter (\<lambda>a. \<not> truthy (original_url a)) articles"
proof -
  let ?pending = "articlesToProcess articles enhancedResponse"
  let ?created = "published cfg env ?pending 0 0"
  let ?again = "index_updated before ?created"
  from main_trace[of cfg env articles enhancedResponse] run
  have s: "results_success summary
      = length (filter (\<lambda>(a, result). success result) (attempted cfg env ?pending 0 0))"
    and k: "results_skipped summary = length articles - length ?pending"
    by auto
  have "length ?pending \<le> length articles" by (simp add: articlesToProcess_def)
  with s k full
  have all: "length (filter (\<lambda>(a, result). success result) (attempted cfg env ?pending 0 0))
      = length ?pending"
    by simp
  have "has (alreadyEnhancedUrls (Response ?again)) (original_url a) = truthy (original_url a)"
    if a: "a \<in> set articles" for a
  proof (cases "truthy (original_url a)")
    case False
    with not_truthy_kept[of a "Response ?again"] show ?thesis by simp
  next
    case True
    have "\<exists>d \<in> set ?again. original_url d = original_url a"
    proof (cases "a \<in> set ?pending")
      case True
      from published_covers[OF all True] obtain body where
        "body \<in> set ?created" "p_original_url body = original_url a" "p_status body = ''updated''"
        by blast
      then have "store body \<in> set ?again" "original_url (store body) = original_url a"
        by (simp_all add: index_updated_def) (simp add: store_def)
      then show ?thesis by blast
    next
      case False
      with a have "has (alreadyEnhancedUrls enhancedResponse) (original_url a)"
        by (simp add: articlesToProcess_def)
      from excluded_has_source[OF this] seen obtain d where
        "d \<in> set before" "original_url d = original_url a"
        by auto
      then show ?thesis by (auto simp: index_updated_def)
    qed
    then obtain d where d: "d \<in> set ?again" "original_url d = original_url a" by blast
    with True have "truthy (original_url d)" by simp
    from has_alreadyEnhancedUrls[OF d(1) this] d(2) True show ?thesis by simp
  qed
  then show ?thesis
    unfolding articlesToProcess_def by (intro filter_cong) simp_all
qed


lemma single_run:
  assumes "success (processArticle cfg (env 0) a)" and "articlesToProcess [a] enh = [a]"
  shows "main cfg env (Response [a]) enh
    = Inr \<lparr>results_success = 1, results_failed = 0, results_skipped = 0, results_errors = []\<rparr>"
  using assms by (simp add: main_def Let_def)

lemma articlesToProcess_unchecked: "articlesToProcess articles (NetworkError e) = articles"
  by (simp add: articlesToProcess_def alreadyEnhancedUrls_def has_empty)

lemma articlesToProcess_none_enhanced: "articlesToProcess articles (Response []) = articles"
  by (simp add: articlesToProcess_def alreadyEnhancedUrls_def has_empty)

text \<open>
  Claim C2 as stated fails in three ways. When the request for the enhanced articles
  throws, the duplicate check is dropped: \<open>article_A\<close> is processed again although the
  store holds \<open>enhanced_A\<close>, which carries its address. An article without an address is
  never in the set: \<open>article_C\<close> is processed again although \<open>enhanced_C\<close> carries the
  same (absent) address. Both happen on a second run over the store that a first run
  left, in which the one source article succeeded. And a run that counts ten successes
  and no failure has left the loop: of eleven pending articles the last is not
  attempted, and a second run over the store it left succeeds on that one.
\<close>

theorem dedup_counterexample:
  "original_url article_A \<in> original_url ` set [enhanced_A]
   \<and> main example_config (\<lambda>i. example_item) (Response [article_A]) (NetworkError ''timeout'')
       = Inr \<lparr>results_success = 1, results_failed = 0, results_skipped = 0, results_errors = []\<rparr>
   \<and> original_url article_C \<in> original_url ` set [enhanced_C]
   \<and> main example_config (\<lambda>i. example_item) (Response [article_C]) (Response [enhanced_C])
       = Inr \<lparr>results_success = 1, results_failed = 0, results_skipped = 0, results_errors = []\<rparr>
   \<and> main example_config (\<lambda>i. example_item) (Response [article_A]) (Response [])
       = Inr \<lparr>results_success = 1, results_failed = 0, results_skipped = 0, results_errors = []\<rparr>
   \<and> original_url article_A
       \<in> original_url ` set (index_updated []
             (published example_config (\<lambda>i. example_item) [article_A] 0 0))
   \<and> main example_config (\<lambda>i. example_item) (Response [article_C]) (Response [])
       = Inr \<lparr>results_success = 1, results_failed = 0, results_skipped = 0, results_errors = []\<rparr>
   \<and> main example_config (\<lambda>i. example_item) (Response [article_C])
         (Response (index_updated []
            (published example_config (\<lambda>i. example_item) [article_C] 0 0)))
       = Inr \<lparr>results_success = 1, results_failed = 0, results_skipped = 0, results_errors = []\<rparr>
   \<and> main example_config (\<lambda>i. example_item) (Response (replicate 10 article_B @ [article_A]))
         (Response [])
       = Inr \<lparr>results_success = 10, results_failed = 0, results_skipped = 0, results_errors = []\<rparr>
   \<and> main example_config (\<lambda>i. example_item) (Response (replicate 10 article_B @ [article_A]))
         (Response (index_updated []
            (published example_config (\<lambda>i. example_item) (replicate 10 article_B @ [article_A]) 0 0)))
       = Inr \<lparr>results_success = 1, results_failed = 0, results_skipped = 10, results_errors = []\<rparr>"
proof -
  let ?env = "\<lambda>i::nat. example_item"
  let ?one = "\<lparr>results_success = 1, results_failed = 0, results_skipped = 0, results_errors = []\<rparr>"
  let ?many = "replicate 10 article_B @ [article_A]"
  have okA: "success (processArticle example_config example_item article_A)" by code_simp
  have okB: "success (processArticle example_config example_item article_B)" by code_simp
  have okC: "success (processArticle example_config example_item article_C)" by code_simp
  have urlA: "original_url article_A = Some ''https://beyondchats.com/blogs/chatbot-benefits''"
    by code_simp
  have urlB: "original_url article_B = Some ''https://beyondchats.com/blogs/lead-generation''"
    by code_simp
  have urlC: "original_url article_C = None" by code_simp
  have c1: "original_url article_A \<in> original_url ` set [enhanced_A]" by code_simp
  have c3: "original_url article_C \<in> original_url ` set [enhanced_C]" by code_simp
  have c2: "main example_config ?env (Response [article_A]) (NetworkError ''timeout'') = Inr ?one"
    using okA by (intro single_run articlesToProcess_unchecked)
  have keepC: "articlesToProcess [article_C] enh = [article_C]" for enh
    using not_truthy_kept[of article_C enh] by (simp add: articlesToProcess_def urlC)
  have c4: "main example_config ?env (Response [article_C]) (Response [enhanced_C]) = Inr ?one"
    using okC by (intro single_run keepC)
  have c5: "main example_config ?env (Response [article_A]) (Response []) = Inr ?one"
    using okA by (intro single_run articlesToProcess_none_enhanced)
  have c7: "main example_config ?env (Response [article_C]) (Response []) = Inr ?one"
    using okC by (intro single_run keepC)
  have c8: "main example_config ?env (Response [article_C])
         (Response (index_updated [] (published example_config ?env [article_C] 0 0))) = Inr ?one"
    using okC by (intro single_run keepC)
  from okA request_body_None[of example_config example_item article_A]
  obtain bodyA where bA: "request_body example_config example_item article_A = Some bodyA"
    by (cases "request_body example_config example_item article_A") auto
  from request_body_Some[OF bA]
  have fA: "p_original_url bodyA = original_url article_A" "p_status bodyA = ''updated''"
    by simp_all
  have "published example_config ?env [article_A] 0 0 = [bodyA]"
    using okA bA by (simp add: Let_def)
  then have "index_updated [] (published example_config ?env [article_A] 0 0) = [store bodyA]"
    using fA by (simp add: index_updated_def)
  moreover have "original_url (store bodyA) = original_url article_A"
    using fA by (simp add: store_def)
  ultimately have c6: "original_url article_A
       \<in> original_url ` set (index_updated [] (published example_config ?env [article_A] 0 0))"
    by simp
  from okB request_body_None[of example_config example_item article_B]
  obtain bodyB where bB: "request_body example_config example_item article_B = Some bodyB"
    by (cases "request_body example_config example_item article_B") auto
  from request_body_Some[OF bB]
  have fB: "p_original_url bodyB = original_url article_B" "p_status bodyB = ''updated''"
    by simp_all
  have c9: "main example_config ?env (Response ?many) (Response [])
       = Inr \<lparr>results_success = 10, results_failed = 0, results_skipped = 0, results_errors = []\<rparr>"
    by (simp add: main_def articlesToProcess_none_enhanced eval_nat_numeral Let_def okB)
  have created: "published example_config ?env ?many 0 0 = replicate 10 bodyB"
    by (simp add: eval_nat_numeral Let_def okB bB)
  have listing: "index_updated [] (replicate 10 bodyB) = replicate 10 (store bodyB)"
    using fB by (simp add: index_updated_def eval_nat_numeral)
  have carried: "original_url (store bodyB) = Some ''https://beyondchats.com/blogs/lead-generation''"
    using fB urlB by (simp add: store_def)
  have urls: "alreadyEnhancedUrls (Response (replicate 10 (store bodyB)))
      = [''https://beyondchats.com/blogs/lead-generation'']"
    by (simp add: alreadyEnhancedUrls_def eval_nat_numeral carried)
  have left: "articlesToProcess ?many (Response (replicate 10 (store bodyB))) = [article_A]"
    unfolding articlesToProcess_def urls by (simp add: urlA urlB)
  have c10: "main example_config ?env (Response ?many)
         (Response (index_updated [] (published example_config ?env ?many 0 0)))
       = Inr \<lparr>results_success = 1, results_failed = 0, results_skipped = 10, results_errors = []\<rparr>"
    unfolding created listing by (simp add: main_def left Let_def okA)
  from c1 c2 c3 c4 c5 c6 c7 c8 c9 c10 show ?thesis by (intro conjI)
qed

lemma fully_successful_run:
  assumes run: "main cfg env (Response articles) enhancedResponse = Inr summary"
    and full: "results_success summary + results_skipped summary = length articles"
  shows "results_failed summary = 0"
    and "map fst (attempted cfg env (articlesToProcess articles enhancedResponse) 0 0)
           = articlesToProcess articles enhancedResponse"
proof -
  let ?pending = "articlesToProcess articles enhancedResponse"
  let ?considered = "attempted cfg env ?pending 0 0"
  from main_trace[of cfg env articles enhancedResponse] run
  have s: "results_success summary = length (filter (\<lambda>(a, result). success result) ?considered)"
    and f: "results_failed summary
      = length (filter (\<lambda>(a, result). \<not> success result) ?considered)"
    and k: "results_skipped summary = length articles - length ?pending"
    by auto
  have le: "length ?pending \<le> length articles" by (simp add: articlesToProcess_def)
  have sum: "results_success summary + results_failed summary = length ?considered"
    using s f filter_partition_length[of ?considered] by simp
  have short: "length ?considered \<le> length ?pending" by (rule attempted_length)
  from full k le have "results_success summary = length ?pending" by simp
  with sum short show "results_failed summary = 0" by simp
  from \<open>results_success summary = length ?pending\<close> sum short
  have "length ?considered = length ?pending" by simp
  with attempted_items[of cfg env ?pending 0 0] show "map fst ?considered = ?pending" by simp
qed

lemma not_pending_not_attempted:
  assumes "a \<notin> set pending"
  shows "a \<notin> fst ` set (attempted cfg env pending i s)"
proof -
  have "fst ` set (attempted cfg env pending i s) = set (map fst (attempted cfg env pending i s))"
    by simp
  also have "\<dots> = set (take (length (attempted cfg env pending i s)) pending)"
    by (simp only: attempted_items[symmetric])
  also have "\<dots> \<subseteq> set pending" by (rule set_take_subset)
  finally show ?thesis using assms by blast
qed

text \<open>
  Claim C2, as the code has it. When the request for the enhanced articles answers, a
  source article whose address is a non-empty string carried by one of the returned
  articles is excluded from processing: it is not pending, and \<open>processArticle\<close> is not
  called on it. When the request throws, no article is excluded, and an article
  without an address is excluded by no answer. Consequently, after a run in which every
  source article was excluded or succeeded (so that none failed and every pending
  article was attempted), a second run over the store it left, whose request for the
  enhanced articles answers, has as pending articles exactly the source articles
  without an address; when every source article has one, the second run calls
  \<open>processArticle\<close> on no item, succeeds on none, fails on none, and counts them all as
  skipped.
\<close>

theorem dedup_excludes_enhanced:
  "(d \<in> set enhancedArticles \<and> truthy (original_url a) \<and> original_url d = original_url a \<longrightarrow>
      a \<notin> set (articlesToProcess articles (Response enhancedArticles))
      \<and> a \<notin> fst ` set (attempted cfg env
                          (articlesToProcess articles (Response enhancedArticles)) 0 0))
   \<and> articlesToProcess articles (NetworkError e) = articles
   \<and> (b \<in> set articles \<and> \<not> truthy (original_url b) \<longrightarrow>
        b \<in> set (articlesToProcess articles enhancedResponse))
   \<and> ((enhancedResponse = Response before \<or> enhancedResponse = NetworkError e')
        \<and> main cfg env (Response articles) enhancedResponse = Inr summary
        \<and> results_success summary + results_skipped summary = length articles \<longrightarrow>
        results_failed summary = 0
        \<and> map fst (attempted cfg env (articlesToProcess articles enhancedResponse) 0 0)
            = articlesToProcess articles enhancedResponse
        \<and> (let again = Response (index_updated before
                           (published cfg env (articlesToProcess articles enhancedResponse) 0 0))
           in articlesToProcess articles again
                = filter (\<lambda>a. \<not> truthy (original_url a)) articles
              \<and> ((\<forall>a \<in> set articles. truthy (original_url a)) \<longrightarrow>
                   attempted cfg' env' (articlesToProcess articles again) 0 0 = []
                   \<and> main cfg' env' (Response articles) again
                       = Inr \<lparr>results_success = 0, results_failed = 0,
                              results_skipped = length articles, results_errors = []\<rparr>)))"
proof (intro conjI impI)
  assume "d \<in> set enhancedArticles \<and> truthy (original_url a) \<and> original_url d = original_url a"
  then have "has (alreadyEnhancedUrls (Response enhancedArticles)) (original_url a)"
    using has_alreadyEnhancedUrls[of d enhancedArticles] by simp
  then show out: "a \<notin> set (articlesToProcess articles (Response enhancedArticles))"
    by (simp add: articlesToProcess_def)
  then show "a \<notin> fst ` set (attempted cfg env
      (articlesToProcess articles (Response enhancedArticles)) 0 0)"
    by (rule not_pending_not_attempted)
next
  show "articlesToProcess articles (NetworkError e) = articles"
    by (rule articlesToProcess_unchecked)
next
  assume "b \<in> set articles \<and> \<not> truthy (original_url b)"
  then show "b \<in> set (articlesToProcess articles enhancedResponse)"
    using not_truthy_kept[of b enhancedResponse] by (simp add: articlesToProcess_def)
next
  assume first: "(enhancedResponse = Response before \<or> enhancedResponse = NetworkError e')
        \<and> main cfg env (Response articles) enhancedResponse = Inr summary
        \<and> results_success summary + results_skipped summary = length articles"
  then have run: "main cfg env (Response articles) enhancedResponse = Inr summary"
    and full: "results_success summary + results_skipped summary = length articles"
    by simp_all
  from run full show "results_failed summary = 0"
    by (rule fully_successful_run(1))
  from run full
  show "map fst (attempted cfg env (articlesToProcess articles enhancedResponse) 0 0)
      = articlesToProcess articles enhancedResponse"
    by (rule fully_successful_run(2))
next
  assume first: "(enhancedResponse = Response before \<or> enhancedResponse = NetworkError e')
        \<and> main cfg env (Response articles) enhancedResponse = Inr summary
        \<and> results_success summary + results_skipped summary = length articles"
  let ?again = "Response (index_updated before
                       (published cfg env (articlesToProcess articles enhancedResponse) 0 0))"
  from first have seen: "enhancedResponse = Response before \<or> enhancedResponse = NetworkError e'"
    and run: "main cfg env (Response articles) enhancedResponse = Inr summary"
    and full: "results_success summary + results_skipped summary = length articles"
    by simp_all
  from second_run_pending[OF seen run full]
  have pending: "articlesToProcess articles ?again
      = filter (\<lambda>a. \<not> truthy (original_url a)) articles" .
  have none: "attempted cfg' env' (articlesToProcess articles ?again) 0 0 = []
      \<and> main cfg' env' (Response articles) ?again
        = Inr \<lparr>results_success = 0, results_failed = 0,
               results_skipped = length articles, results_errors = []\<rparr>"
    if "\<forall>a \<in> set articles. truthy (original_url a)"
  proof -
    from that have "filter (\<lambda>a. \<not> truthy (original_url a)) articles = []"
      by (simp add: filter_empty_conv)
    with pending have "articlesToProcess articles ?again = []" by simp
    then show ?thesis by (simp add: main_def)
  qed
  from pending none show "let again = ?again
         in articlesToProcess articles again = filter (\<lambda>a. \<not> truthy (original_url a)) articles
            \<and> ((\<forall>a \<in> set articles. truthy (original_url a)) \<longrightarrow>
                 attempted cfg' env' (articlesToProcess articles again) 0 0 = []
                 \<and> main cfg' env' (Response articles) again
                   = Inr \<lparr>results_success = 0, results_failed = 0,
                          results_skipped = length articles, results_errors = []\<rparr>)"
    unfolding Let_def by blast
qed

theorem dedup_excludes_enhanced_witness:
  "(enhanced_A \<in> set [enhanced_A, enhanced_B] \<and> truthy (original_url article_A)
      \<and> original_url enhanced_A = original_url article_A)
   \<and> article_A \<notin> set (articlesToProcess [article_A, article_B] (Response [enhanced_A, enhanced_B]))
   \<and> articlesToProcess [article_A, article_B] (NetworkError ''timeout'') = [article_A, article_B]
   \<and> article_C \<in> set [article_A, article_C]
   \<and> \<not> truthy (original_url article_C)
   \<and> article_C \<in> set (articlesToProcess [article_A, article_C] (Response [enhanced_A, enhanced_C]))
   \<and> main example_config (\<lambda>i. example_item) (Response [article_A, article_B])
        (Response [enhanced_A])
       = Inr \<lparr>results_success = 1, results_failed = 0, results_skipped = 1, results_errors = []\<rparr>
   \<and> (1::nat) + 1 = length [article_A, article_B]
   \<and> list_all (\<lambda>a. truthy (original_url a)) [article_A, article_B]
   \<and> articlesToProcess [article_A, article_B]
        (Response (index_updated [enhanced_A]
           (published example_config (\<lambda>i. example_item)
              (articlesToProcess [article_A, article_B] (Response [enhanced_A])) 0 0)))
       = []
   \<and> main example_config (\<lambda>i. example_item) (Response [article_A, article_B])
        (Response (index_updated [enhanced_A]
           (published example_config (\<lambda>i. example_item)
              (articlesToProcess [article_A, article_B] (Response [enhanced_A])) 0 0)))
       = Inr \<lparr>results_success = 0, results_failed = 0, results_skipped = 2, results_errors = []\<rparr>"
proof -
  let ?env = "\<lambda>i::nat. example_item"
  let ?first = "\<lparr>results_success = 1, results_failed = 0, results_skipped = 1, results_errors = []\<rparr>"
  let ?again = "Response (index_updated [enhanced_A]
           (published example_config ?env
              (articlesToProcess [article_A, article_B] (Response [enhanced_A])) 0 0))"
  have h1: "enhanced_A \<in> set [enhanced_A, enhanced_B] \<and> truthy (original_url article_A)
      \<and> original_url enhanced_A = original_url article_A"
    by code_simp
  have h3: "article_C \<in> set [article_A, article_C]" by simp
  have h4: "\<not> truthy (original_url article_C)" by code_simp
  have run: "main example_config ?env (Response [article_A, article_B]) (Response [enhanced_A])
      = Inr ?first"
    by code_simp
  have h5: "list_all (\<lambda>a. truthy (original_url a)) [article_A, article_B]" by code_simp
  then have h5': "\<forall>a \<in> set [article_A, article_B]. truthy (original_url a)"
    unfolding list_all_iff .
  have sum: "results_success ?first + results_skipped ?first = length [article_A, article_B]"
    by simp
  note inst = dedup_excludes_enhanced[where d = enhanced_A
      and enhancedArticles = "[enhanced_A, enhanced_B]" and a = article_A
      and articles = "[article_A, article_B]" and e = "''timeout''" and cfg = example_config
      and env = ?env and enhancedResponse = "Response [enhanced_A]" and before = "[enhanced_A]"
      and summary = ?first and cfg' = example_config and env' = ?env]
  from inst[THEN conjunct1, THEN mp, OF h1]
  have c1: "article_A \<notin> set (articlesToProcess [article_A, article_B]
      (Response [enhanced_A, enhanced_B]))"
    by (rule conjunct1)
  from inst[THEN conjunct2, THEN conjunct1]
  have c2: "articlesToProcess [article_A, article_B] (NetworkError ''timeout'')
      = [article_A, article_B]" .
  from dedup_excludes_enhanced[where b = article_C and articles = "[article_A, article_C]"
      and enhancedResponse = "Response [enhanced_A, enhanced_C]",
      THEN conjunct2, THEN conjunct2, THEN conjunct1] h3 h4
  have c3: "article_C \<in> set (articlesToProcess [article_A, article_C]
      (Response [enhanced_A, enhanced_C]))"
    by simp
  have first: "(Response [enhanced_A] = Response [enhanced_A]
        \<or> Response [enhanced_A] = NetworkError e')
      \<and> main example_config ?env (Response [article_A, article_B]) (Response [enhanced_A])
          = Inr ?first
      \<and> results_success ?first + results_skipped ?first = length [article_A, article_B]" for e'
    using run sum by (intro conjI disjI1 refl)
  from inst[THEN conjunct2, THEN conjunct2, THEN conjunct2, THEN mp, OF first,
      THEN conjunct2, THEN conjunct2]
  have second: "articlesToProcess [article_A, article_B] ?again
        = filter (\<lambda>a. \<not> truthy (original_url a)) [article_A, article_B]
      \<and> ((\<forall>a \<in> set [article_A, article_B]. truthy (original_url a)) \<longrightarrow>
           attempted example_config ?env (articlesToProcess [article_A, article_B] ?again) 0 0 = []
           \<and> main example_config ?env (Response [article_A, article_B]) ?again
             = Inr \<lparr>results_success = 0, results_failed = 0,
                    results_skipped = length [article_A, article_B], results_errors = []\<rparr>)"
    unfolding Let_def .
  from h5 have "filter (\<lambda>a. \<not> truthy (original_url a)) [article_A, article_B] = []"
    by simp
  with second have c5: "articlesToProcess [article_A, article_B] ?again = []"
    by simp
  from second h5' have c6: "main example_config ?env (Response [article_A, article_B]) ?again
      = Inr \<lparr>results_success = 0, results_failed = 0,
             results_skipped = length [article_A, article_B], results_errors = []\<rparr>"
    by blast
  from h1 c1 c2 h3 h4 c3 run h5 c5 c6 show ?thesis by simp
qed

section \<open>Properties of the gap analysis\<close>

lemma initializeClient_accepts:
  "truthy key \<Longrightarrow> key \<noteq> Some ''your_groq_api_key_here'' \<Longrightarrow> initializeClient key = Inr ()"
  by (simp add: initializeClient_def)


lemma performGapAnalysis_parse_failed:
  assumes "initializeClient (GROQ_API_KEY cfg) = Inr ()"
    and "JSON_parse cfg (analysisText content) = Inl e"
  shows "performGapAnalysis cfg a cs (Response content) = Inr (gap_default e)"
  using assms by (simp add: performGapAnalysis_def)

lemma performGapAnalysis_null:
  assumes "initializeClient (GROQ_API_KEY cfg) = Inr ()"
    and "JSON_parse cfg (analysisText content) = Inr JNull"
  shows "performGapAnalysis cfg a cs (Response content) = Inr (gap_default null_read_message)"
  using assms by (simp add: performGapAnalysis_def)

lemma performGapAnalysis_parsed:
  assumes "initializeClient (GROQ_API_KEY cfg) = Inr ()"
    and "JSON_parse cfg (analysisText content) = Inr analysis"
    and "analysis \<noteq> JNull"
  shows "performGapAnalysis cfg a cs (Response content) =
     Inr \<lparr>missing = or_else (property analysis ''missing'') (JArr []),
          improve = or_else (property analysis ''improve'') (JArr []),
          strengths = or_else (property analysis ''strengths'') (JArr []),
          keywords_missing = or_else (property analysis ''keywords_missing'') (JArr []),
          overall_score = or_else (property analysis ''overall_score'') (JNum 5),
          recommendations = or_else (property analysis ''recommendations'') (JArr []),
          error = None\<rparr>"
  using assms by (cases analysis) (simp_all add: performGapAnalysis_def)



text \<open>
  Claim C6 as stated fails. An answer that parses and has no field gives the score 5 and
  no error marker; an answer that does not parse gives a \<open>missing\<close> list of one message.
\<close>

theorem gap_defaulting_counterexample:
  "performGapAnalysis example_config article_A [] (Response (Some ''{}''))
     = Inr \<lparr>missing = JArr [], improve = JArr [], strengths = JArr [], keywords_missing = JArr [],
            overall_score = JNum 5, recommendations = JArr [], error = None\<rparr>
   \<and> performGapAnalysis example_config article_A [] (Response (Some ''Sorry, no JSON''))
     = Inr \<lparr>missing = JArr [JStr ''Unable to analyze - please check API key''],
            improve = JArr [], strengths = JArr [], keywords_missing = JArr [],
            overall_score = JNum 0, recommendations = JArr [],
            error = Some ''Unexpected token''\<rparr>"
  by code_simp

text \<open>
  Claim C6, as the code has it. With a key, \<open>performGapAnalysis\<close> returns a result for
  every outcome of the request. When the answer does not parse, or parses to \<open>null\<close>, the
  result is the default structure: \<open>improve\<close>, \<open>strengths\<close>, \<open>keywords_missing\<close> and
  \<open>recommendations\<close> are empty, \<open>missing\<close> holds one message, the score is 0 and the error
  marker carries the message of the exception. When the answer parses to another value,
  every list field that is missing is the empty list, a missing score is 5, and no error
  marker is attached.
\<close>

theorem gap_defaulting:
  assumes "truthy (GROQ_API_KEY cfg)" and "GROQ_API_KEY cfg \<noteq> Some ''your_groq_api_key_here''"
  shows "\<exists>r. performGapAnalysis cfg a cs (Response content) = Inr r
     \<and> (JSON_parse cfg (analysisText content) = Inl e \<longrightarrow>
          r = \<lparr>missing = JArr [JStr ''Unable to analyze - please check API key''],
               improve = JArr [], strengths = JArr [], keywords_missing = JArr [],
               overall_score = JNum 0, recommendations = JArr [], error = Some e\<rparr>)
     \<and> (JSON_parse cfg (analysisText content) = Inr JNull \<longrightarrow>
          r = \<lparr>missing = JArr [JStr ''Unable to analyze - please check API key''],
               improve = JArr [], strengths = JArr [], keywords_missing = JArr [],
               overall_score = JNum 0, recommendations = JArr [],
               error = Some null_read_message\<rparr>)
     \<and> (JSON_parse cfg (analysisText content) = Inr analysis \<and> analysis \<noteq> JNull \<longrightarrow>
          error r = None
          \<and> (property analysis ''missing'' = None \<longrightarrow> missing r = JArr [])
          \<and> (property analysis ''improve'' = None \<longrightarrow> improve r = JArr [])
          \<and> (property analysis ''strengths'' = None \<longrightarrow> strengths r = JArr [])
          \<and> (property analysis ''keywords_missing'' = None \<longrightarrow> keywords_missing r = JArr [])
          \<and> (property analysis ''recommendations'' = None \<longrightarrow> recommendations r = JArr [])
          \<and> (property analysis ''overall_score'' = None \<longrightarrow> overall_score r = JNum 5))"
proof -
  from assms have key: "initializeClient (GROQ_API_KEY cfg) = Inr ()"
    by (rule initializeClient_accepts)
  show ?thesis
  proof (cases "JSON_parse cfg (analysisText content)")
    case (Inl e')
    with performGapAnalysis_parse_failed[OF key Inl, of a cs] show ?thesis
      by (simp add: gap_default_def)
  next
    case (Inr analysis')
    show ?thesis
    proof (cases "analysis' = JNull")
      case True
      with Inr performGapAnalysis_null[OF key, of content a cs] show ?thesis
        by (simp add: gap_default_def)
    next
      case False
      with Inr performGapAnalysis_parsed[OF key Inr False, of a cs] show ?thesis
        by simp
    qed
  qed
qed

theorem gap_defaulting_witness:
  "truthy (GROQ_API_KEY example_config)
   \<and> GROQ_API_KEY example_config \<noteq> Some ''your_groq_api_key_here''
   \<and> JSON_parse example_config (analysisText (Some ''Sorry, no JSON'')) = Inl ''Unexpected token''
   \<and> performGapAnalysis example_config article_A [] (Response (Some ''Sorry, no JSON''))
       = Inr \<lparr>missing = JArr [JStr ''Unable to analyze - please check API key''],
              improve = JArr [], strengths = JArr [], keywords_missing = JArr [],
              overall_score = JNum 0, recommendations = JArr [],
              error = Some ''Unexpected token''\<rparr>
   \<and> JSON_parse example_config (analysisText (Some ''null'')) = Inr JNull
   \<and> performGapAnalysis example_config article_A [] (Response (Some ''null''))
       = Inr \<lparr>missing = JArr [JStr ''Unable to analyze - please check API key''],
              improve = JArr [], strengths = JArr [], keywords_missing = JArr [],
              overall_score = JNum 0, recommendations = JArr [],
              error = Some null_read_message\<rparr>
   \<and> JSON_parse example_config (analysisText (Some ''{}'')) = Inr (JObj [])
   \<and> JObj [] \<noteq> JNull
   \<and> property (JObj []) ''overall_score'' = None
   \<and> (\<exists>r. performGapAnalysis example_config article_A [] (Response (Some ''{}'')) = Inr r
         \<and> error r = None \<and> missing r = JArr [] \<and> improve r = JArr []
         \<and> strengths r = JArr [] \<and> keywords_missing r = JArr []
         \<and> recommendations r = JArr [] \<and> overall_score r = JNum 5)"
proof -
  have k1: "truthy (GROQ_API_KEY example_config)" by code_simp
  have k2: "GROQ_API_KEY example_config \<noteq> Some ''your_groq_api_key_here''" by code_simp
  have p1: "JSON_parse example_config (analysisText (Some ''Sorry, no JSON'')) = Inl ''Unexpected token''"
    by code_simp
  have p2: "JSON_parse example_config (analysisText (Some ''{}'')) = Inr (JObj [])"
    by code_simp
  have p3: "JSON_parse example_config (analysisText (Some ''null'')) = Inr JNull"
    by code_simp
  have q: "property (JObj []) ''overall_score'' = None" "property (JObj []) ''missing'' = None"
    "property (JObj []) ''improve'' = None" "property (JObj []) ''strengths'' = None"
    "property (JObj []) ''keywords_missing'' = None" "property (JObj []) ''recommendations'' = None"
    by simp_all
  from gap_defaulting[OF k1 k2, of article_A "[]" "Some ''Sorry, no JSON''" "''Unexpected token''"
      JNull] p1
  have c1: "performGapAnalysis example_config article_A [] (Response (Some ''Sorry, no JSON''))
       = Inr \<lparr>missing = JArr [JStr ''Unable to analyze - please check API key''],
              improve = JArr [], strengths = JArr [], keywords_missing = JArr [],
              overall_score = JNum 0, recommendations = JArr [],
              error = Some ''Unexpected token''\<rparr>"
    by blast
  from gap_defaulting[OF k1 k2, of article_A "[]" "Some ''null''" "[]" JNull] p3
  have c3: "performGapAnalysis example_config article_A [] (Response (Some ''null''))
       = Inr \<lparr>missing = JArr [JStr ''Unable to analyze - please check API key''],
              improve = JArr [], strengths = JArr [], keywords_missing = JArr [],
              overall_score = JNum 0, recommendations = JArr [],
              error = Some null_read_message\<rparr>"
    by auto
  from gap_defaulting[OF k1 k2, of article_A "[]" "Some ''{}''" "[]" "JObj []"] p2 q
  have c2: "\<exists>r. performGapAnalysis example_config article_A [] (Response (Some ''{}'')) = Inr r
         \<and> error r = None \<and> missing r = JArr [] \<and> improve r = JArr []
         \<and> strengths r = JArr [] \<and> keywords_missing r = JArr []
         \<and> recommendations r = JArr [] \<and> overall_score r = JNum 5"
    by (simp only:) blast
  from k1 k2 p1 p2 p3 q c1 c2 c3 show ?thesis by simp
qed








section \<open>Properties of the citation assembler\<close>

lemma citationCard_None: "citationCard cfg c = None \<longleftrightarrow> URL_hostname cfg (c_url c) = None"
  by (cases "URL_hostname cfg (c_url c)") (simp_all add: citationCard_def Let_def)

lemma those_map_None: "those (map f xs) = None \<longleftrightarrow> (\<exists>x \<in> set xs. f x = None)"
  by (induction xs) (auto split: option.splits)

lemma those_map_Some:
  "those (map f xs) = Some ys \<Longrightarrow> length ys = length xs \<and> map Some ys = map f xs"
  by (induction xs arbitrary: ys) (auto split: option.splits)

lemma includes_trans: "str_includes s t \<Longrightarrow> str_includes t p \<Longrightarrow> str_includes s p"
proof -
  assume "str_includes s t" and "str_includes t p"
  then obtain a b c d where "s = a @ t @ b" and "t = c @ p @ d"
    by (auto simp: includes_iff)
  then have "s = (a @ c) @ p @ (d @ b)" by simp
  then show ?thesis by (metis includes_append)
qed

lemma includes_skip: "str_includes t p \<Longrightarrow> str_includes (s @ t) p"
proof -
  assume "str_includes t p"
  then obtain a b where "t = a @ p @ b" by (auto simp: includes_iff)
  then have "s @ t = (s @ a) @ p @ b" by simp
  then show ?thesis by (metis includes_append)
qed

lemma includes_start: "str_includes (p @ rest) p"
  using includes_append[of "[]" p rest] by simp

lemma includes_join: "i < length parts \<Longrightarrow> str_includes (join sep parts) (parts ! i)"
proof (induction sep parts arbitrary: i rule: join.induct)
  case (1 sep)
  then show ?case by simp
next
  case (2 sep x)
  then show ?case using includes_start[of x "[]"] by simp
next
  case (3 sep x y ys)
  show ?case
  proof (cases i)
    case 0
    then show ?thesis using includes_start[of x "sep @ join sep (y # ys)"] by simp
  next
    case (Suc j)
    with 3 have "str_includes (join sep (y # ys)) ((y # ys) ! j)" by simp
    then have "str_includes (x @ sep @ join sep (y # ys)) ((y # ys) ! j)"
      by (intro includes_skip)
    with Suc show ?thesis by simp
  qed
qed

lemma includes_start3: "str_includes (a @ b @ c @ rest) (a @ b @ c)"
  using includes_start[of "a @ b @ c" rest] by simp

lemma includes_start4: "str_includes (a @ b @ c @ d @ rest) (a @ b @ c @ d)"
  using includes_start[of "a @ b @ c @ d" rest] by simp

lemma prefix_start3: "prefix (a @ b @ c) (a @ b @ c @ rest)"
  by (simp add: prefix_def)

lemma citationCard_hostname:
  "citationCard cfg c = Some card_html \<Longrightarrow> \<exists>hostname. URL_hostname cfg (c_url c) = Some hostname"
  by (cases "URL_hostname cfg (c_url c)") (simp_all add: citationCard_def)

lemma card_opening:
  assumes "citationCard cfg c = Some card_html" and "URL_hostname cfg (c_url c) = Some hostname"
  shows \<open>prefix (''\<newline>    <a href="'' @ c_url c @ ''" target="_blank" rel="noopener" class="related-article-card">\<newline>'') card_html\<close>
  using assms(1) unfolding citationCard_def Let_def assms(2)
  apply (simp only: option.case option.inject)
  apply (erule subst)
  apply (rule prefix_start3)
  done

lemma card_title:
  assumes "citationCard cfg c = Some card_html" and "URL_hostname cfg (c_url c) = Some hostname"
  shows \<open>str_includes card_html (''            <h3>'' @ c_title c @ ''</h3>\<newline>'')\<close>
  using assms(1) unfolding citationCard_def Let_def assms(2)
  apply (simp only: option.case option.inject)
  apply (erule subst)
    apply (rule includes_skip)
    apply (rule includes_skip)
    apply (rule includes_skip)
    apply (rule includes_skip)
    apply (rule includes_skip)
    apply (rule includes_skip)
    apply (rule includes_skip)
    apply (rule includes_skip)
    apply (rule includes_skip)
  apply (rule includes_start3)
  done

lemma card_source:
  assumes "citationCard cfg c = Some card_html" and "URL_hostname cfg (c_url c) = Some hostname"
  shows \<open>str_includes card_html (''            <div class="related-meta">Source: '' @ hostname @ ''</div>\<newline>'')\<close>
  using assms(1) unfolding citationCard_def Let_def assms(2)
  apply (simp only: option.case option.inject)
  apply (erule subst)
    apply (rule includes_skip)
    apply (rule includes_skip)
    apply (rule includes_skip)
    apply (rule includes_skip)
    apply (rule includes_skip)
    apply (rule includes_skip)
    apply (rule includes_skip)
    apply (rule includes_skip)
    apply (rule includes_skip)
    apply (rule includes_skip)
    apply (rule includes_skip)
    apply (rule includes_skip)
  apply (rule includes_start3)
  done

lemma card_snippet:
  assumes "citationCard cfg c = Some card_html" and "URL_hostname cfg (c_url c) = Some hostname"
  shows \<open>str_includes card_html (''            <p class="related-excerpt">'' @ (if length (if c_snippet c \<noteq> [] then c_snippet c
                  else if c_excerpt c \<noteq> [] then c_excerpt c
                  else ''Read the full article to learn more.'') > 120 then take 120 (if c_snippet c \<noteq> [] then c_snippet c
                  else if c_excerpt c \<noteq> [] then c_excerpt c
                  else ''Read the full article to learn more.'') @ ''...'' else (if c_snippet c \<noteq> [] then c_snippet c
                  else if c_excerpt c \<noteq> [] then c_excerpt c
                  else ''Read the full article to learn more.'')) @ ''</p>\<newline>'')\<close>
  using assms(1) unfolding citationCard_def Let_def assms(2)
  apply (simp only: option.case option.inject)
  apply (erule subst)
    apply (rule includes_skip)
    apply (rule includes_skip)
    apply (rule includes_skip)
    apply (rule includes_skip)
    apply (rule includes_skip)
    apply (rule includes_skip)
    apply (rule includes_skip)
    apply (rule includes_skip)
    apply (rule includes_skip)
    apply (rule includes_skip)
    apply (rule includes_skip)
    apply (rule includes_skip)
    apply (rule includes_skip)
    apply (rule includes_skip)
    apply (rule includes_skip)
  apply (rule includes_start3)
  done

lemma card_excerpt:
  assumes "citationCard cfg c = Some card_html"
  shows \<open>\<exists>excerpt. length excerpt \<le> 123
     \<and> str_includes card_html (''            <p class="related-excerpt">'' @ excerpt @ ''</p>\<newline>'')\<close>
proof -
  from assms obtain hostname where h: "URL_hostname cfg (c_url c) = Some hostname"
    using citationCard_hostname by blast
  let ?snippet = "(if c_snippet c \<noteq> [] then c_snippet c
                  else if c_excerpt c \<noteq> [] then c_excerpt c
                  else ''Read the full article to learn more.'')"
  let ?clean = "(if length ?snippet > 120 then take 120 ?snippet @ ''...'' else ?snippet)"
  have "length ?clean \<le> 123" by simp
  with card_snippet[OF assms h] show ?thesis by blast
qed

lemma card_closing:
  assumes "citationCard cfg c = Some card_html" and "URL_hostname cfg (c_url c) = Some hostname"
  shows "suffix ''    </a>'' card_html"
  using assms(1) unfolding citationCard_def Let_def assms(2)
  apply (simp only: option.case option.inject)
  apply (erule subst)
  apply (rule suffix_appendI)
  apply (rule suffix_appendI)
  apply (rule suffix_appendI)
  apply (rule suffix_appendI)
  apply (rule suffix_appendI)
  apply (rule suffix_appendI)
  apply (rule suffix_appendI)
  apply (rule suffix_appendI)
  apply (rule suffix_appendI)
  apply (rule suffix_appendI)
  apply (rule suffix_appendI)
  apply (rule suffix_appendI)
  apply (rule suffix_appendI)
  apply (rule suffix_appendI)
  apply (rule suffix_appendI)
  apply (rule suffix_appendI)
  apply (rule suffix_appendI)
  apply (rule suffix_appendI)
  apply (rule suffix_appendI)
  apply (rule suffix_order.refl)
  done

lemma section_opening:
  \<open>prefix ''\<newline><section class="related-articles-section">\<newline>'' (citations_section citationCards first_url)\<close>
  unfolding citations_section_def by (simp only: prefix_def) (rule exI, rule refl)

lemma section_closing: "suffix ''</section>'' (citations_section citationCards first_url)"
  unfolding citations_section_def
  apply (rule suffix_appendI)
  apply (rule suffix_appendI)
  apply (rule suffix_appendI)
  apply (rule suffix_appendI)
  apply (rule suffix_appendI)
  apply (rule suffix_appendI)
  apply (rule suffix_appendI)
  apply (rule suffix_appendI)
  apply (rule suffix_appendI)
  apply (rule suffix_appendI)
  apply (rule suffix_appendI)
  apply (rule suffix_appendI)
  apply (rule suffix_appendI)
  apply (rule suffix_order.refl)
  done

lemma section_cards:
  "str_includes (citations_section citationCards first_url) (''    '' @ citationCards @ ''\<newline>'')"
  unfolding citations_section_def
  apply (rule includes_skip)
  apply (rule includes_skip)
  apply (rule includes_skip)
  apply (rule includes_skip)
  apply (rule includes_start3)
  done

lemma section_button:
  \<open>str_includes (citations_section citationCards first_url)
     (''  <button class="see-more-btn" onclick="window.open('' @ [CHR 0x27] @ first_url @ [CHR 0x27])\<close>
  unfolding citations_section_def
  apply (rule includes_skip)
  apply (rule includes_skip)
  apply (rule includes_skip)
  apply (rule includes_skip)
  apply (rule includes_skip)
  apply (rule includes_skip)
  apply (rule includes_skip)
  apply (rule includes_skip)
  apply (rule includes_start4)
  done

text \<open>
  Claim C10 (citation assembler). \<open>generateCitations\<close> returns the empty string for the
  empty list. For a non-empty list it builds \<open>new URL(c.url)\<close> for every competitor: when
  the address of one of them is not accepted by the constructor, the function throws and
  returns no block; when every address is accepted, it returns a section that opens and
  closes as the template does, links its button to the first competitor, and holds one
  card per competitor, in order, joined by line feeds. The card of a competitor is a link
  to its address that shows its title, the host name of its address and an excerpt of at
  most 123 characters.
\<close>

theorem citations_total_on_valid_urls:
  \<open>generateCitations cfg [] = Inr []
   \<and> (competitors \<noteq> [] \<and> (\<exists>c \<in> set competitors. URL_hostname cfg (c_url c) = None) \<longrightarrow>
        generateCitations cfg competitors = Inl ''Invalid URL'')
   \<and> (competitors \<noteq> [] \<and> (\<forall>c \<in> set competitors. URL_hostname cfg (c_url c) \<noteq> None) \<longrightarrow>
        (\<exists>cards html.
            length cards = length competitors
            \<and> map Some cards = map (citationCard cfg) competitors
            \<and> generateCitations cfg competitors = Inr html
            \<and> html = citations_section (join ''\<newline>'' cards) (c_url (hd competitors))
            \<and> prefix ''\<newline><section class="related-articles-section">\<newline>'' html
            \<and> str_includes html (''    '' @ join ''\<newline>'' cards @ ''\<newline>'')
            \<and> str_includes html
                  (''  <button class="see-more-btn" onclick="window.open('' @ [CHR 0x27] @ c_url (hd competitors) @ [CHR 0x27])
            \<and> suffix ''</section>'' html
            \<and> (\<forall>i < length competitors.
                  str_includes html (cards ! i)
                  \<and> prefix (''\<newline>    <a href="'' @ c_url (competitors ! i)
                        @ ''" target="_blank" rel="noopener" class="related-article-card">\<newline>'')
                        (cards ! i)
                  \<and> str_includes (cards ! i)
                        (''            <h3>'' @ c_title (competitors ! i) @ ''</h3>\<newline>'')
                  \<and> (\<exists>hostname. URL_hostname cfg (c_url (competitors ! i)) = Some hostname
                        \<and> str_includes (cards ! i)
                              (''            <div class="related-meta">Source: '' @ hostname
                                @ ''</div>\<newline>''))
                  \<and> (\<exists>excerpt. length excerpt \<le> 123
                        \<and> str_includes (cards ! i)
                              (''            <p class="related-excerpt">'' @ excerpt @ ''</p>\<newline>''))
                  \<and> suffix ''    </a>'' (cards ! i))))\<close>
proof (intro conjI impI)
  show "generateCitations cfg [] = Inr []"
    by (simp add: generateCitations_def)
next
  assume h: "competitors \<noteq> [] \<and> (\<exists>c \<in> set competitors. URL_hostname cfg (c_url c) = None)"
  then obtain c0 others where cs: "competitors = c0 # others"
    by (cases competitors) auto
  from h have "\<exists>c \<in> set competitors. citationCard cfg c = None"
    by (simp add: citationCard_None)
  then have "those (map (citationCard cfg) competitors) = None"
    by (simp add: those_map_None)
  with cs show "generateCitations cfg competitors = Inl ''Invalid URL''"
    by (simp add: generateCitations_def)
next
  assume h: "competitors \<noteq> [] \<and> (\<forall>c \<in> set competitors. URL_hostname cfg (c_url c) \<noteq> None)"
  then obtain c0 others where cs: "competitors = c0 # others"
    by (cases competitors) auto
  from h have "\<not> (\<exists>c \<in> set competitors. citationCard cfg c = None)"
    by (simp add: citationCard_None)
  then have "those (map (citationCard cfg) competitors) \<noteq> None"
    by (simp add: those_map_None)
  then obtain cards where cards: "those (map (citationCard cfg) competitors) = Some cards"
    by (cases "those (map (citationCard cfg) competitors)") auto
  from those_map_Some[OF cards] have len: "length cards = length competitors"
    and each: "map Some cards = map (citationCard cfg) competitors"
    by simp_all
  let ?html = "citations_section (join ''\<newline>'' cards) (c_url (hd competitors))"
  from cards cs have gen: "generateCitations cfg competitors = Inr ?html"
    by (simp add: generateCitations_def)
  have joined: "str_includes ?html (''    '' @ join ''\<newline>'' cards @ ''\<newline>'')"
    by (rule section_cards)
  have "str_includes (''    '' @ join ''\<newline>'' cards @ ''\<newline>'') (join ''\<newline>'' cards)"
    using includes_append[of "''    ''" "join ''\<newline>'' cards" "''\<newline>''"] .
  with joined have whole: "str_includes ?html (join ''\<newline>'' cards)"
    by (rule includes_trans)
  have card: "citationCard cfg (competitors ! i) = Some (cards ! i)" if "i < length competitors" for i
  proof -
    from that len have "map Some cards ! i = Some (cards ! i)" by simp
    moreover from that have "map (citationCard cfg) competitors ! i = citationCard cfg (competitors ! i)"
      by simp
    ultimately show ?thesis using each by simp
  qed
  show \<open>(\<exists>cards html.
    length cards = length competitors
    \<and> map Some cards = map (citationCard cfg) competitors
    \<and> generateCitations cfg competitors = Inr html
    \<and> html = citations_section (join ''\<newline>'' cards) (c_url (hd competitors))
    \<and> prefix ''\<newline><section class="related-articles-section">\<newline>'' html
    \<and> str_includes html (''    '' @ join ''\<newline>'' cards @ ''\<newline>'')
    \<and> str_includes html
          (''  <button class="see-more-btn" onclick="window.open('' @ [CHR 0x27] @ c_url (hd competitors) @ [CHR 0x27])
    \<and> suffix ''</section>'' html
    \<and> (\<forall>i < length competitors.
          str_includes html (cards ! i)
          \<and> prefix (''\<newline>    <a href="'' @ c_url (competitors ! i)
                @ ''" target="_blank" rel="noopener" class="related-article-card">\<newline>'')
                (cards ! i)
          \<and> str_includes (cards ! i)
                (''            <h3>'' @ c_title (competitors ! i) @ ''</h3>\<newline>'')
          \<and> (\<exists>hostname. URL_hostname cfg (c_url (competitors ! i)) = Some hostname
                \<and> str_includes (cards ! i)
                      (''            <div class="related-meta">Source: '' @ hostname
                        @ ''</div>\<newline>''))
          \<and> (\<exists>excerpt. length excerpt \<le> 123
                \<and> str_includes (cards ! i)
                      (''            <p class="related-excerpt">'' @ excerpt @ ''</p>\<newline>''))
          \<and> suffix ''    </a>'' (cards ! i)))\<close>
  proof (rule exI[of _ cards], rule exI[of _ ?html], intro conjI allI impI)
    show "length cards = length competitors" by (rule len)
    show "map Some cards = map (citationCard cfg) competitors" by (rule each)
    show "generateCitations cfg competitors = Inr ?html" by (rule gen)
    show "?html = citations_section (join ''\<newline>'' cards) (c_url (hd competitors))" by (rule refl)
    show \<open>prefix ''\<newline><section class="related-articles-section">\<newline>'' ?html\<close>
      by (rule section_opening)
    show "str_includes ?html (''    '' @ join ''\<newline>'' cards @ ''\<newline>'')" by (rule joined)
    show \<open>str_includes ?html
        (''  <button class="see-more-btn" onclick="window.open('' @ [CHR 0x27] @ c_url (hd competitors) @ [CHR 0x27])\<close>
      by (rule section_button)
    show "suffix ''</section>'' ?html" by (rule section_closing)
  next
    fix i
    assume i: "i < length competitors"
    from card[OF i] obtain hostname where
      host: "URL_hostname cfg (c_url (competitors ! i)) = Some hostname"
      using citationCard_hostname by blast
    from i len have "str_includes (join ''\<newline>'' cards) (cards ! i)"
      by (simp add: includes_join)
    with whole show "str_includes ?html (cards ! i)" by (rule includes_trans)
    show \<open>prefix (''\<newline>    <a href="'' @ c_url (competitors ! i)
        @ ''" target="_blank" rel="noopener" class="related-article-card">\<newline>'')
        (cards ! i)\<close>
      using card[OF i] host by (rule card_opening)
    show \<open>str_includes (cards ! i)
        (''            <h3>'' @ c_title (competitors ! i) @ ''</h3>\<newline>'')\<close>
      using card[OF i] host by (rule card_title)
    show \<open>\<exists>hostname. URL_hostname cfg (c_url (competitors ! i)) = Some hostname
        \<and> str_includes (cards ! i)
              (''            <div class="related-meta">Source: '' @ hostname
                @ ''</div>\<newline>'')\<close>
      using host card_source[OF card[OF i] host] by blast
    show \<open>\<exists>excerpt. length excerpt \<le> 123
        \<and> str_includes (cards ! i)
              (''            <p class="related-excerpt">'' @ excerpt @ ''</p>\<newline>'')\<close>
      using card[OF i] by (rule card_excerpt)
    show "suffix ''    </a>'' (cards ! i)"
      using card[OF i] host by (rule card_closing)
  qed
qed

theorem citations_total_on_valid_urls_witness:
  \<open>generateCitations example_config [] = Inr []
   \<and> [example_competitor, broken_competitor] \<noteq> []
   \<and> list_ex (\<lambda>c. URL_hostname example_config (c_url c) = None) [example_competitor, broken_competitor]
   \<and> generateCitations example_config [example_competitor, broken_competitor] = Inl ''Invalid URL''
   \<and> [example_competitor] \<noteq> []
   \<and> list_all (\<lambda>c. URL_hostname example_config (c_url c) \<noteq> None) [example_competitor]
   \<and> generateCitations example_config [example_competitor] = Inr example_citations
   \<and> (\<exists>cards. length cards = 1
         \<and> map Some cards = map (citationCard example_config) [example_competitor]
         \<and> str_includes example_citations (cards ! 0)
         \<and> prefix (''\<newline>    <a href="'' @ ''https://acme.io/blog/chatbot-benefits''
               @ ''" target="_blank" rel="noopener" class="related-article-card">\<newline>'')
               (cards ! 0)
         \<and> suffix ''    </a>'' (cards ! 0))\<close>
proof -
  have bad: "list_ex (\<lambda>c. URL_hostname example_config (c_url c) = None)
      [example_competitor, broken_competitor]"
    by code_simp
  then have bad': "[example_competitor, broken_competitor] \<noteq> []
      \<and> (\<exists>c \<in> set [example_competitor, broken_competitor]. URL_hostname example_config (c_url c) = None)"
    unfolding list_ex_iff by simp
  have good: "list_all (\<lambda>c. URL_hostname example_config (c_url c) \<noteq> None) [example_competitor]"
    by code_simp
  then have good': "[example_competitor] \<noteq> []
      \<and> (\<forall>c \<in> set [example_competitor]. URL_hostname example_config (c_url c) \<noteq> None)"
    unfolding list_all_iff by simp
  have lit: "generateCitations example_config [example_competitor] = Inr example_citations"
    by code_simp
  have url: "c_url ([example_competitor] ! 0) = ''https://acme.io/blog/chatbot-benefits''"
    by code_simp
  note bad_inst = citations_total_on_valid_urls[of example_config
      "[example_competitor, broken_competitor]"]
  note good_inst = citations_total_on_valid_urls[of example_config "[example_competitor]"]
  from bad_inst have c0: "generateCitations example_config [] = Inr []"
    by (rule conjunct1)
  from bad_inst[THEN conjunct2, THEN conjunct1, THEN mp, OF bad']
  have c1: "generateCitations example_config
      [example_competitor, broken_competitor] = Inl ''Invalid URL''" .
  from good_inst[THEN conjunct2, THEN conjunct2, THEN mp, OF good']
  obtain cards html where len: "length cards = length [example_competitor]"
    and each: "map Some cards = map (citationCard example_config) [example_competitor]"
    and gen: "generateCitations example_config [example_competitor] = Inr html"
    and every: \<open>(\<forall>i < length [example_competitor].
                  str_includes html (cards ! i)
                  \<and> prefix (''\<newline>    <a href="'' @ c_url ([example_competitor] ! i)
                        @ ''" target="_blank" rel="noopener" class="related-article-card">\<newline>'')
                        (cards ! i)
                  \<and> str_includes (cards ! i)
                        (''            <h3>'' @ c_title ([example_competitor] ! i) @ ''</h3>\<newline>'')
                  \<and> (\<exists>hostname. URL_hostname example_config (c_url ([example_competitor] ! i)) = Some hostname
                        \<and> str_includes (cards ! i)
                              (''            <div class="related-meta">Source: '' @ hostname
                                @ ''</div>\<newline>''))
                  \<and> (\<exists>excerpt. length excerpt \<le> 123
                        \<and> str_includes (cards ! i)
                              (''            <p class="related-excerpt">'' @ excerpt @ ''</p>\<newline>''))
                  \<and> suffix ''    </a>'' (cards ! i))\<close>
    by (elim exE conjE)
  from gen lit have html: "html = example_citations" by simp
  from every have \<open>(0::nat) < length [example_competitor] \<longrightarrow>
          str_includes html (cards ! 0)
                  \<and> prefix (''\<newline>    <a href="'' @ c_url ([example_competitor] ! 0)
                        @ ''" target="_blank" rel="noopener" class="related-article-card">\<newline>'')
                        (cards ! 0)
                  \<and> str_includes (cards ! 0)
                        (''            <h3>'' @ c_title ([example_competitor] ! 0) @ ''</h3>\<newline>'')
                  \<and> (\<exists>hostname. URL_hostname example_config (c_url ([example_competitor] ! 0)) = Some hostname
                        \<and> str_includes (cards ! 0)
                              (''            <div class="related-meta">Source: '' @ hostname
                                @ ''</div>\<newline>''))
                  \<and> (\<exists>excerpt. length excerpt \<le> 123
                        \<and> str_includes (cards ! 0)
                              (''            <p class="related-excerpt">'' @ excerpt @ ''</p>\<newline>''))
                  \<and> suffix ''    </a>'' (cards ! 0)\<close>
    by (rule spec)
  moreover have "(0::nat) < length [example_competitor]" by simp
  ultimately have first: \<open>str_includes html (cards ! 0)
                  \<and> prefix (''\<newline>    <a href="'' @ c_url ([example_competitor] ! 0)
                        @ ''" target="_blank" rel="noopener" class="related-article-card">\<newline>'')
                        (cards ! 0)
                  \<and> str_includes (cards ! 0)
                        (''            <h3>'' @ c_title ([example_competitor] ! 0) @ ''</h3>\<newline>'')
                  \<and> (\<exists>hostname. URL_hostname example_config (c_url ([example_competitor] ! 0)) = Some hostname
                        \<and> str_includes (cards ! 0)
                              (''            <div class="related-meta">Source: '' @ hostname
                                @ ''</div>\<newline>''))
                  \<and> (\<exists>excerpt. length excerpt \<le> 123
                        \<and> str_includes (cards ! 0)
                              (''            <p class="related-excerpt">'' @ excerpt @ ''</p>\<newline>''))
                  \<and> suffix ''    </a>'' (cards ! 0)\<close>
    by (rule mp)
  from first have i1: "str_includes html (cards ! 0)" by (rule conjunct1)
  from first have i2: \<open>prefix (''\<newline>    <a href="'' @ c_url ([example_competitor] ! 0)
                @ ''" target="_blank" rel="noopener" class="related-article-card">\<newline>'')
                (cards ! 0)\<close>
    by (elim conjE)
  from first have i3: "suffix ''    </a>'' (cards ! 0)" by (elim conjE)
  have last: \<open>\<exists>cards. length cards = 1
         \<and> map Some cards = map (citationCard example_config) [example_competitor]
         \<and> str_includes example_citations (cards ! 0)
         \<and> prefix (''\<newline>    <a href="'' @ ''https://acme.io/blog/chatbot-benefits''
               @ ''" target="_blank" rel="noopener" class="related-article-card">\<newline>'')
               (cards ! 0)
         \<and> suffix ''    </a>'' (cards ! 0)\<close>
    using len each i1 i2 i3 unfolding html url by (intro exI[of _ cards] conjI) simp_all
  from c0 c1 bad good lit last show ?thesis by (intro conjI) simp_all
qed

section \<open>Content preservation\<close>

text \<open>
  A marker that begins with a character it does not contain again cannot begin inside a
  text and end inside a copy of itself that follows the text.
\<close>

lemma marker_no_overlap:
  assumes m: "m = x # ms" and x: "x \<notin> set ms" and t: "t \<noteq> []"
    and p: "prefix m (t @ m @ rest)"
  shows "prefix m t"
proof (cases "length m \<le> length t")
  case True
  from p have "take (length m) (t @ m @ rest) = m"
    by (metis append_eq_conv_conj prefix_def)
  with True have "take (length m) t = m" by simp
  then show ?thesis by (metis take_is_prefix)
next
  case False
  then have short: "length t < length m" by simp
  from p obtain zs where zs: "t @ m @ rest = m @ zs"
    by (auto simp: prefix_def)
  have "(t @ m @ rest) ! length t = x" by (simp add: nth_append m)
  moreover from short have "(m @ zs) ! length t = m ! length t"
    by (simp add: nth_append)
  ultimately have "m ! length t = x" using zs by simp
  moreover from t obtain n where n: "length t = Suc n" by (cases t) auto
  ultimately have "ms ! n = x" by (simp add: m)
  moreover from short n have "n < length ms" by (simp add: m)
  ultimately have "x \<in> set ms" by (metis nth_mem)
  with x show ?thesis by simp
qed

lemma mark_open_no_overlap:
  "t \<noteq> [] \<Longrightarrow> prefix mark_open (t @ mark_open @ rest) \<Longrightarrow> prefix mark_open t"
  by (rule marker_no_overlap[of mark_open "CHR ''<''" "''mark>''"]) (simp_all add: mark_open_def)

lemma mark_close_no_overlap:
  "t \<noteq> [] \<Longrightarrow> prefix mark_close (t @ mark_close @ rest) \<Longrightarrow> prefix mark_close t"
  by (rule marker_no_overlap[of mark_close "CHR ''<''" "''/mark>''"]) (simp_all add: mark_close_def)

lemma includes_append_left: "\<not> str_includes (s @ t) p \<Longrightarrow> \<not> str_includes s p"
  by (metis append.assoc includes_iff)

lemma includes_append_right: "\<not> str_includes (s @ t) p \<Longrightarrow> \<not> str_includes t p"
  by (metis append.assoc includes_iff)

lemma after_close_here: "after_close (mark_close @ rest) = Some rest"
proof -
  obtain c cs where m: "mark_close @ rest = c # cs"
    by (cases "mark_close @ rest") (auto simp: mark_close_def)
  have "prefix mark_close (mark_close @ rest)" by simp
  with m have "after_close (c # cs) = Some (drop (length mark_close) (c # cs))" by simp
  with m[symmetric] show ?thesis by simp
qed

lemma after_close_found:
  assumes "\<not> str_includes added mark_close"
  shows "after_close (added @ mark_close @ rest) = Some rest"
  using assms
proof (induction added)
  case Nil
  then show ?case by (simp add: after_close_here)
next
  case (Cons c cs)
  from Cons.prems have np: "\<not> prefix mark_close (c # cs)" and nc: "\<not> str_includes cs mark_close"
    by simp_all
  have "\<not> prefix mark_close ((c # cs) @ mark_close @ rest)"
    using mark_close_no_overlap[of "c # cs" rest] np by blast
  then have "after_close ((c # cs) @ mark_close @ rest) = after_close (cs @ mark_close @ rest)"
    by simp
  with Cons.IH[OF nc] show ?case by simp
qed

lemma strip_additions_unmarked:
  "\<not> str_includes chunk mark_open \<Longrightarrow> strip_additions chunk = chunk"
  by (induction chunk) simp_all

lemma strip_additions_segment:
  assumes "\<not> str_includes added mark_close"
  shows "strip_additions (mark_open @ added @ mark_close @ rest) = strip_additions rest"
proof -
  let ?s = "mark_open @ added @ mark_close @ rest"
  obtain c cs where s: "?s = c # cs"
    by (cases ?s) (auto simp: mark_open_def)
  have p: "prefix mark_open ?s" by simp
  have "after_close (drop (length mark_open) ?s) = Some rest"
    using after_close_found[OF assms] by simp
  with p s have "strip_additions (c # cs) = strip_additions rest"
    by simp
  with s show ?thesis by simp
qed

lemma strip_additions_chunk:
  assumes "\<not> str_includes chunk mark_open" and "\<not> str_includes added mark_close"
  shows "strip_additions (chunk @ mark_open @ added @ mark_close @ rest)
    = chunk @ strip_additions rest"
  using assms(1)
proof (induction chunk)
  case Nil
  from strip_additions_segment[OF assms(2)] show ?case by simp
next
  case (Cons c cs)
  from Cons.prems have np: "\<not> prefix mark_open (c # cs)" and nc: "\<not> str_includes cs mark_open"
    by simp_all
  let ?tail = "added @ mark_close @ rest"
  have "\<not> prefix mark_open ((c # cs) @ mark_open @ ?tail)"
    using mark_open_no_overlap[of "c # cs" ?tail] np by blast
  then have "strip_additions ((c # cs) @ mark_open @ ?tail)
      = c # strip_additions (cs @ mark_open @ ?tail)"
    by simp
  with Cons.IH[OF nc] show ?case by simp
qed

lemma strip_generator_stub:
  assumes "\<not> str_includes (original_body chunk insertions) mark_open"
    and "\<forall>(added, next_chunk) \<in> set insertions. \<not> str_includes added mark_close"
  shows "strip_additions (generator_stub chunk insertions) = original_body chunk insertions"
  using assms
proof (induction insertions arbitrary: chunk)
  case Nil
  then show ?case by (simp add: strip_additions_unmarked)
next
  case (Cons ins rest)
  obtain added next_chunk where ins: "ins = (added, next_chunk)" by (cases ins)
  from Cons.prems(1) ins have whole: "\<not> str_includes (chunk @ original_body next_chunk rest) mark_open"
    by simp
  from whole have c: "\<not> str_includes chunk mark_open" by (rule includes_append_left)
  from whole have r: "\<not> str_includes (original_body next_chunk rest) mark_open"
    by (rule includes_append_right)
  from Cons.prems(2) ins have a: "\<not> str_includes added mark_close"
    and others: "\<forall>(added, next_chunk) \<in> set rest. \<not> str_includes added mark_close"
    by simp_all
  from Cons.IH[OF r others] strip_additions_chunk[OF c a, of "generator_stub next_chunk rest"] ins
  show ?case by simp
qed

text \<open>
  Claim C1 as stated fails in two ways. The body of \<open>article_M\<close> holds a marked passage
  of its own: the stub inserts nothing, \<open>enhanceArticle\<close> returns the body as it is, and
  removing the marked segments takes the passage away. And an added paragraph that holds
  a closing marker ends its segment early: what follows that marker in the paragraph
  stays in the body of \<open>article_A\<close>.
\<close>

theorem content_preservation_counterexample:
  "a_content article_M = original_body ''<p>a</p><mark>key</mark><p>b</p>'' []
   \<and> generator_stub ''<p>a</p><mark>key</mark><p>b</p>'' [] = ''<p>a</p><mark>key</mark><p>b</p>''
   \<and> enhanceArticle example_config article_M []
         (Response (Some (generator_stub ''<p>a</p><mark>key</mark><p>b</p>'' [])))
       = Inr \<lparr>e_content = ''<p>a</p><mark>key</mark><p>b</p>'', e_title = ''Enhanced: Key Terms''\<rparr>
   \<and> strip_additions ''<p>a</p><mark>key</mark><p>b</p>'' = ''<p>a</p><p>b</p>''
   \<and> strip_additions ''<p>a</p><mark>key</mark><p>b</p>'' \<noteq> a_content article_M
   \<and> a_content article_A
       = original_body ''<p>Old.</p>'' [(''<p>New</mark>.</p>'', ''<p>End.</p>'')]
   \<and> generator_stub ''<p>Old.</p>'' [(''<p>New</mark>.</p>'', ''<p>End.</p>'')]
       = ''<p>Old.</p><mark><p>New</mark>.</p></mark><p>End.</p>''
   \<and> enhanceArticle example_config article_A []
         (Response (Some (generator_stub ''<p>Old.</p>''
            [(''<p>New</mark>.</p>'', ''<p>End.</p>'')])))
       = Inr \<lparr>e_content = ''<p>Old.</p><mark><p>New</mark>.</p></mark><p>End.</p>'',
              e_title = ''Enhanced: Chatbot Benefits''\<rparr>
   \<and> strip_additions ''<p>Old.</p><mark><p>New</mark>.</p></mark><p>End.</p>''
       = ''<p>Old.</p>.</p></mark><p>End.</p>''
   \<and> strip_additions ''<p>Old.</p><mark><p>New</mark>.</p></mark><p>End.</p>''
       \<noteq> a_content article_A"
  by code_simp

text \<open>
  Claim C1, as the code has it. \<open>enhanceArticle\<close> returns the answer of the generative
  service as the body, unchanged. So when the answer is the original body with added
  paragraphs wrapped in the markers between its chunks, the original body holding no
  opening marker of its own and no added paragraph holding a closing marker, removing
  the marked segments from the returned body gives back the original body, character
  for character.
\<close>

theorem content_preservation:
  assumes "truthy (GROQ_API_KEY cfg)" and "GROQ_API_KEY cfg \<noteq> Some ''your_groq_api_key_here''"
    and "a_content originalArticle = original_body chunk insertions"
    and "\<not> str_includes (a_content originalArticle) mark_open"
    and "\<forall>(added, next_chunk) \<in> set insertions. \<not> str_includes added mark_close"
  shows "\<exists>enhanced.
           enhanceArticle cfg originalArticle competitorArticles
             (Response (Some (generator_stub chunk insertions))) = Inr enhanced
           \<and> e_content enhanced = generator_stub chunk insertions
           \<and> strip_additions (e_content enhanced) = a_content originalArticle"
proof -
  let ?answer = "generator_stub chunk insertions"
  from assms(1,2) have key: "initializeClient (GROQ_API_KEY cfg) = Inr ()"
    by (rule initializeClient_accepts)
  have through: "(if truthy (Some ?answer) then the (Some ?answer) else []) = ?answer"
    by simp
  from key obtain enhanced where
    e: "enhanceArticle cfg originalArticle competitorArticles (Response (Some ?answer)) = Inr enhanced"
    and c: "e_content enhanced = (if truthy (Some ?answer) then the (Some ?answer) else [])"
    by (simp add: enhanceArticle_def Let_def)
  from c through have same: "e_content enhanced = ?answer" by simp
  from assms(3,4,5) have "strip_additions ?answer = a_content originalArticle"
    by (simp add: strip_generator_stub)
  with e same show ?thesis by simp
qed

theorem content_preservation_witness:
  "truthy (GROQ_API_KEY example_config)
   \<and> GROQ_API_KEY example_config \<noteq> Some ''your_groq_api_key_here''
   \<and> a_content article_A = original_body ''<p>Old.</p>'' [(''<p>New.</p>'', ''<p>End.</p>'')]
   \<and> \<not> str_includes (a_content article_A) mark_open
   \<and> list_all (\<lambda>(added, next_chunk). \<not> str_includes added mark_close)
         [(''<p>New.</p>'', ''<p>End.</p>'')]
   \<and> enhance_completion example_item
       = Response (Some (generator_stub ''<p>Old.</p>'' [(''<p>New.</p>'', ''<p>End.</p>'')]))
   \<and> (\<exists>enhanced.
         enhanceArticle example_config article_A [] (enhance_completion example_item) = Inr enhanced
         \<and> e_content enhanced = ''<p>Old.</p><mark><p>New.</p></mark><p>End.</p>''
         \<and> strip_additions (e_content enhanced) = ''<p>Old.</p><p>End.</p>'')"
proof -
  let ?ins = "[(''<p>New.</p>'', ''<p>End.</p>'')]"
  have k1: "truthy (GROQ_API_KEY example_config)" by code_simp
  have k2: "GROQ_API_KEY example_config \<noteq> Some ''your_groq_api_key_here''" by code_simp
  have body: "a_content article_A = original_body ''<p>Old.</p>'' ?ins" by code_simp
  have unmarked: "\<not> str_includes (a_content article_A) mark_open" by code_simp
  have closed: "list_all (\<lambda>(added, next_chunk). \<not> str_includes added mark_close) ?ins"
    by code_simp
  then have closed': "\<forall>(added, next_chunk) \<in> set ?ins. \<not> str_includes added mark_close"
    unfolding list_all_iff .
  have answer: "enhance_completion example_item
       = Response (Some (generator_stub ''<p>Old.</p>'' ?ins))"
    by code_simp
  have stub: "generator_stub ''<p>Old.</p>'' ?ins = ''<p>Old.</p><mark><p>New.</p></mark><p>End.</p>''"
    by code_simp
  have content: "a_content article_A = ''<p>Old.</p><p>End.</p>''" by code_simp
  have answer': "enhance_completion example_item
       = Response (Some ''<p>Old.</p><mark><p>New.</p></mark><p>End.</p>'')"
    using answer stub by simp
  from content_preservation[OF k1 k2 body unmarked closed', of "[]"]
  have "\<exists>enhanced.
         enhanceArticle example_config article_A []
           (Response (Some ''<p>Old.</p><mark><p>New.</p></mark><p>End.</p>'')) = Inr enhanced
         \<and> e_content enhanced = ''<p>Old.</p><mark><p>New.</p></mark><p>End.</p>''
         \<and> strip_additions (e_content enhanced) = ''<p>Old.</p><p>End.</p>''"
    unfolding stub content .
  then have "\<exists>enhanced.
         enhanceArticle example_config article_A [] (enhance_completion example_item) = Inr enhanced
         \<and> e_content enhanced = ''<p>Old.</p><mark><p>New.</p></mark><p>End.</p>''
         \<and> strip_additions (e_content enhanced) = ''<p>Old.</p><p>End.</p>''"
    unfolding answer' .
  with k1 k2 body unmarked closed answer show ?thesis by (intro conjI)
qed

end
